theory Spec2Isabelle
  imports Main "HOL-Library.AList"
begin

section \<open>The object store\<close>

text \<open>
  The workspace of \<^verbatim>\<open>gitmodel/workspace.py\<close> sits on a pygit2 repository: a
  content-addressed object database (blobs, trees, commits) and a table of named
  references. An object id is derived from the content of the object, so two objects
  have the same id exactly when they have the same content. The model identifies an id
  with the content it names: a tree entry carries the object it points to, a commit
  carries its tree and its parent commits. Reading an id therefore always yields its
  content; \<open>objects\<close> records which objects have been written to the database.
\<close>

type_synonym filemode = nat

datatype node = Blob string | Tree "(string \<times> node \<times> filemode) list"

text \<open>A tree is its list of entries \<open>(name, object, mode)\<close>, the shape
  of the tuples that \<^verbatim>\<open>add\<close> receives.\<close>

type_synonym tree = "(string \<times> node \<times> filemode) list"

record signature =
  sig_name :: string
  sig_email :: string
  sig_time :: int
  sig_offset :: "int option"

datatype commit = Commit
  (commit_tree: tree)
  (commit_parents: "commit list")
  (commit_author: signature)
  (commit_committer: signature)
  (commit_message: string)

datatype obj = ONode node | OCommit commit

text \<open>
  The constants of libgit2 that the source names or that pygit2 returns. The type of a
  reference is the kind of the reference (\<^verbatim>\<open>GIT_REF_OID\<close> for a direct one,
  \<^verbatim>\<open>GIT_REF_SYMBOLIC\<close> for a symbolic one), not the type of the object it points to.
  Only direct references are modelled; the workspace never creates a symbolic one.
\<close>

definition GIT_OBJ_COMMIT :: nat where "GIT_OBJ_COMMIT = 1"
definition GIT_REF_OID :: nat where "GIT_REF_OID = 1"
definition GIT_FILEMODE_TREE :: filemode where "GIT_FILEMODE_TREE = 16384"
definition GIT_FILEMODE_BLOB :: filemode where "GIT_FILEMODE_BLOB = 33188"

datatype reference = Reference (ref_name: string) (target: obj)

definition ref_type :: "reference \<Rightarrow> nat" where
  "ref_type r = GIT_REF_OID"

record repository =
  objects :: "obj set"
  references :: "string \<rightharpoonup> obj"

text \<open>
  Exceptions are values. \<open>TreeConflict\<close> is the structural conflict of the tree
  builder; \<open>Raised\<close> stands for an exception of the caller's own block inside a
  \<^verbatim>\<open>with\<close> statement.
\<close>

datatype error =
    RepositoryNotFound
  | RepositoryError string
  | LockWaitTimeoutExceeded
  | KeyError
  | ValueError string
  | AttributeError string
  | TypeError
  | TreeConflict string
  | Raised string

text \<open>\<^verbatim>\<open>repo.lookup_reference(name)\<close>: an absent name raises \<^verbatim>\<open>KeyError\<close>.\<close>

definition lookup_reference :: "repository \<Rightarrow> string \<Rightarrow> error + reference" where
  "lookup_reference r name =
     (case references r name of
        None \<Rightarrow> Inl KeyError
      | Some t \<Rightarrow> Inr (Reference name t))"

text \<open>
  \<^verbatim>\<open>repo.create_reference(name, target)\<close>, called without \<^verbatim>\<open>force\<close>: the store
  refuses to overwrite an existing name (libgit2's \<^verbatim>\<open>GIT_EEXISTS\<close>, a
  \<^verbatim>\<open>ValueError\<close> in pygit2). Reference names are taken to be well formed.
\<close>

definition create_reference ::
  "repository \<Rightarrow> string \<Rightarrow> obj \<Rightarrow> error + (reference \<times> repository)" where
  "create_reference r name t =
     (case references r name of
        Some _ \<Rightarrow> Inl (ValueError ''reference exists'')
      | None \<Rightarrow> Inr (Reference name t, r\<lparr>references := (references r)(name \<mapsto> t)\<rparr>))"

text \<open>\<^verbatim>\<open>ref.delete()\<close> removes the name from the table.\<close>

definition delete_reference :: "repository \<Rightarrow> reference \<Rightarrow> repository" where
  "delete_reference r rf = r\<lparr>references := (references r)(ref_name rf := None)\<rparr>"

text \<open>\<^verbatim>\<open>repo.create_blob(content)\<close> writes a blob and returns its id.\<close>

definition repo_create_blob :: "repository \<Rightarrow> string \<Rightarrow> node \<times> repository" where
  "repo_create_blob r content =
     (Blob content, r\<lparr>objects := insert (ONode (Blob content)) (objects r)\<rparr>)"

text \<open>\<^verbatim>\<open>repo.TreeBuilder(...).write()\<close> for a builder that holds the entries
  \<open>t\<close>: the tree is written and its id returned.\<close>

definition TreeBuilder_write :: "repository \<Rightarrow> tree \<Rightarrow> tree \<times> repository" where
  "TreeBuilder_write r t = (t, r\<lparr>objects := insert (ONode (Tree t)) (objects r)\<rparr>)"

text \<open>
  \<^verbatim>\<open>repo.create_commit(ref, author, committer, message, tree, parents)\<close> writes the
  commit and points the reference \<open>ref\<close> at it, creating the reference when it does
  not exist. It returns the id of the commit.
\<close>

definition repo_create_commit ::
  "repository \<Rightarrow> string \<Rightarrow> signature \<Rightarrow> signature \<Rightarrow> string \<Rightarrow> tree \<Rightarrow> commit list
     \<Rightarrow> commit \<times> repository" where
  "repo_create_commit r rf author committer message t parents =
     (let c = Commit t parents author committer message
      in (c, r\<lparr>objects := insert (OCommit c) (objects r),
                references := (references r)(rf \<mapsto> OCommit c)\<rparr>))"

subsection \<open>Reading a tree and comparing two trees\<close>

text \<open>
  \<open>tree_file t p\<close> reads the blob at the path \<open>p\<close> (a list of names) of the tree
  \<open>t\<close>, with its mode; \<open>tree_paths t\<close> lists the paths of all blobs of \<open>t\<close>.
\<close>

fun tree_file :: "tree \<Rightarrow> string list \<Rightarrow> (string \<times> filemode) option" where
  "tree_file t [] = None"
| "tree_file t [n] =
     (case map_of t n of
        Some (Blob c, m) \<Rightarrow> Some (c, m)
      | _ \<Rightarrow> None)"
| "tree_file t (n # p) =
     (case map_of t n of
        Some (Tree sub, m) \<Rightarrow> tree_file sub p
      | _ \<Rightarrow> None)"

fun node_paths :: "node \<Rightarrow> string list list" where
  "node_paths (Blob c) = [[]]"
| "node_paths (Tree t) = concat (map (\<lambda>e. map ((#) (fst e)) (node_paths (fst (snd e)))) t)"

definition tree_paths :: "tree \<Rightarrow> string list list" where
  "tree_paths t = node_paths (Tree t)"

text \<open>
  \<^verbatim>\<open>a.diff_to_tree(b)\<close>: the deltas between two trees, one for each path whose blob
  (content or mode) differs or that only one of the trees has.
\<close>

definition diff_to_tree :: "tree \<Rightarrow> tree \<Rightarrow> string list list" where
  "diff_to_tree a b =
     filter (\<lambda>p. tree_file a p \<noteq> tree_file b p) (remdups (tree_paths a @ tree_paths b))"

section \<open>The workspace\<close>

text \<open>
  The configuration module is not among the sources; the four settings that the
  workspace reads are fields of the workspace's configuration.
\<close>

record config =
  LOCK_WAIT_TIMEOUT :: int
  LOCK_WAIT_INTERVAL :: int
  DEFAULT_GIT_USER :: "string \<times> string"
  DEFAULT_TZ_OFFSET :: "int option"

record workspace =
  config :: config
  repo :: repository
  head :: string
  index :: "tree option"

text \<open>The \<^verbatim>\<open>Branch\<close> class: the reference, its commit, the commit's id and tree.
  A reference that points at an object without a \<^verbatim>\<open>tree\<close> attribute (a blob, a tree)
  raises \<^verbatim>\<open>AttributeError\<close>.\<close>

record branch_view =
  branch_ref :: reference
  branch_commit :: commit
  branch_oid :: obj
  branch_tree :: tree

definition Branch_init :: "repository \<Rightarrow> string \<Rightarrow> error + branch_view" where
  "Branch_init r name =
     (case lookup_reference r name of
        Inl e \<Rightarrow> Inl e
      | Inr rf \<Rightarrow>
          (case target rf of
             OCommit c \<Rightarrow>
               Inr \<lparr>branch_ref = rf, branch_commit = c, branch_oid = OCommit c,
                    branch_tree = commit_tree c\<rparr>
           | ONode _ \<Rightarrow> Inl (AttributeError ''tree'')))"

text \<open>The property \<^verbatim>\<open>branch\<close>: \<^verbatim>\<open>None\<close> when the head does not resolve.\<close>

definition branch :: "workspace \<Rightarrow> error + branch_view option" where
  "branch ws =
     (case Branch_init (repo ws) (head ws) of
        Inl KeyError \<Rightarrow> Inr None
      | Inl e \<Rightarrow> Inl e
      | Inr b \<Rightarrow> Inr (Some b))"

text \<open>
  \<^verbatim>\<open>diff\<close>: against the branch's tree, or against an empty tree built and written on
  the spot when there is no branch. The index is a tree from construction on; a
  \<^verbatim>\<open>None\<close> index is no tree to compare with.
\<close>

definition diff :: "workspace \<Rightarrow> (error + string list list) \<times> workspace" where
  "diff ws =
     (case branch ws of
        Inl e \<Rightarrow> (Inl e, ws)
      | Inr (Some b) \<Rightarrow>
          (case index ws of
             None \<Rightarrow> (Inl TypeError, ws)
           | Some idx \<Rightarrow> (Inr (diff_to_tree (branch_tree b) idx), ws))
      | Inr None \<Rightarrow>
          (let (empty_tree, r') = TreeBuilder_write (repo ws) [];
               ws' = ws\<lparr>repo := r'\<rparr>
           in case index ws' of
                None \<Rightarrow> (Inl TypeError, ws')
              | Some idx \<Rightarrow> (Inr (diff_to_tree empty_tree idx), ws')))"

definition has_changes :: "workspace \<Rightarrow> (error + bool) \<times> workspace" where
  "has_changes ws =
     (case diff ws of
        (Inl e, ws') \<Rightarrow> (Inl e, ws')
      | (Inr d, ws') \<Rightarrow> (Inr (length d > 0), ws'))"

text \<open>
  Python's truth value of the index: \<^verbatim>\<open>None\<close> is false, and a pygit2 tree has a
  length (its number of entries), so a tree without entries is false as well.
\<close>

definition truthy :: "tree option \<Rightarrow> bool" where
  "truthy idx = (case idx of None \<Rightarrow> False | Some t \<Rightarrow> length t > 0)"

definition pending_msg :: string where
  "pending_msg = ''Cannot checkout a different branch with pending changes''"

definition not_found_msg :: "string \<Rightarrow> string" where
  "not_found_msg rf = ''Reference not found: '' @ rf"

text \<open>
  \<^verbatim>\<open>update_index(ref)\<close>. The test \<^verbatim>\<open>self.index and self.has_changes()\<close> calls
  \<^verbatim>\<open>has_changes\<close> only when the index is true. The head is assigned before the
  branch is resolved again for its tree.
\<close>

definition update_index :: "string \<Rightarrow> workspace \<Rightarrow> (error + unit) \<times> workspace" where
  "update_index rf ws =
     (case (if truthy (index ws) then has_changes ws else (Inr False, ws)) of
        (Inl e, ws1) \<Rightarrow> (Inl e, ws1)
      | (Inr True, ws1) \<Rightarrow> (Inl (RepositoryError pending_msg), ws1)
      | (Inr False, ws1) \<Rightarrow>
          (case lookup_reference (repo ws1) rf of
             Inl KeyError \<Rightarrow> (Inl (RepositoryError (not_found_msg rf)), ws1)
           | Inl e \<Rightarrow> (Inl e, ws1)
           | Inr _ \<Rightarrow>
               (let ws2 = ws1\<lparr>head := rf\<rparr>
                in case branch ws2 of
                     Inl e \<Rightarrow> (Inl e, ws2)
                   | Inr None \<Rightarrow> (Inl (AttributeError ''tree''), ws2)
                   | Inr (Some b) \<Rightarrow> (Inr (), ws2\<lparr>index := Some (branch_tree b)\<rparr>))))"

definition set_branch :: "string \<Rightarrow> workspace \<Rightarrow> (error + unit) \<times> workspace" where
  "set_branch name ws =
     (let rf = ''refs/heads/'' @ name
      in case lookup_reference (repo ws) rf of
           Inl KeyError \<Rightarrow> (Inl (RepositoryError (not_found_msg rf)), ws)
         | Inl e \<Rightarrow> (Inl e, ws)
         | Inr _ \<Rightarrow> update_index rf ws)"

text \<open>
  \<^verbatim>\<open>create_branch(name, start_point)\<close>. \<^verbatim>\<open>not start_point\<close> holds for
  \<^verbatim>\<open>None\<close> and for the empty string. The type test compares the reference's type
  with the object type \<^verbatim>\<open>GIT_OBJ_COMMIT\<close>.
\<close>

definition commit_msg :: string where
  "commit_msg = ''Given reference must point to a commit''"

definition create_branch ::
  "string \<Rightarrow> string option \<Rightarrow> workspace \<Rightarrow> (error + unit) \<times> workspace" where
  "create_branch name start_point ws =
     (let sp = (case start_point of
                  None \<Rightarrow> head ws
                | Some s \<Rightarrow> if s = [] then head ws else s)
      in case lookup_reference (repo ws) sp of
           Inl KeyError \<Rightarrow> (Inl (RepositoryError (not_found_msg sp)), ws)
         | Inl e \<Rightarrow> (Inl e, ws)
         | Inr start_point_ref \<Rightarrow>
             if ref_type start_point_ref \<noteq> GIT_OBJ_COMMIT
             then (Inl (ValueError commit_msg), ws)
             else
               (let branch_ref = ''refs/heads/'' @ name
                in case create_reference (repo ws) branch_ref (target start_point_ref) of
                     Inl e \<Rightarrow> (Inl e, ws)
                   | Inr (_, r') \<Rightarrow> (Inr (), ws\<lparr>repo := r'\<rparr>)))"

text \<open>
  Construction. \<^verbatim>\<open>pygit2.Repository(path)\<close> opens the store at a path of the file
  system, a partial map from paths to stores here, and raises \<^verbatim>\<open>KeyError\<close> where
  there is none. The model registry is outside the model.
\<close>

definition pygit2_Repository ::
  "(string \<rightharpoonup> repository) \<Rightarrow> string \<Rightarrow> error + repository" where
  "pygit2_Repository fs repo_path =
     (case fs repo_path of None \<Rightarrow> Inl KeyError | Some r \<Rightarrow> Inr r)"

definition Workspace_init ::
  "config \<Rightarrow> (string \<rightharpoonup> repository) \<Rightarrow> string \<Rightarrow> string \<Rightarrow> error + workspace" where
  "Workspace_init cfg fs repo_path initial_branch =
     (case pygit2_Repository fs repo_path of
        Inl KeyError \<Rightarrow> Inl RepositoryNotFound
      | Inl e \<Rightarrow> Inl e
      | Inr r \<Rightarrow>
          (let ws = \<lparr>config = cfg, repo = r, head = initial_branch, index = None\<rparr>
           in case lookup_reference (repo ws) (head ws) of
                Inl KeyError \<Rightarrow>
                  (let (oid, r') = TreeBuilder_write (repo ws) []
                   in Inr (ws\<lparr>repo := r', index := Some oid\<rparr>))
              | Inl e \<Rightarrow> Inl e
              | Inr _ \<Rightarrow>
                  (case update_index (head ws) ws of
                     (Inl e, _) \<Rightarrow> Inl e
                   | (Inr _, ws') \<Rightarrow> Inr ws')))"

subsection \<open>Commits\<close>

text \<open>
  Modelled from the spec: \<^verbatim>\<open>git.make_signature\<close> of \<^verbatim>\<open>gitmodel/utils/git.py\<close>,
  which is not among the sources. The spec says of it: author and committer default to a
  configured identity when not supplied; timestamp and timezone default to now and to a
  configured offset. \<open>now\<close> is the reading of the clock.
\<close>

definition make_signature :: "string \<times> string \<Rightarrow> int \<Rightarrow> int option \<Rightarrow> signature" where
  "make_signature who now default_offset =
     \<lparr>sig_name = fst who, sig_email = snd who, sig_time = now, sig_offset = default_offset\<rparr>"

text \<open>
  \<^verbatim>\<open>create_commit(ref, tree, message, author, committer, parents)\<close>. Without
  \<^verbatim>\<open>parents\<close> the source looks \<open>ref\<close> up: an absent reference gives no
  parent, and for one that exists it reads \<^verbatim>\<open>parent_ref.oid\<close>. A pygit2 reference
  has a \<^verbatim>\<open>target\<close> and no attribute \<^verbatim>\<open>oid\<close>, so that read raises
  \<^verbatim>\<open>AttributeError\<close>.
\<close>

definition Reference_oid :: "reference \<Rightarrow> error + commit" where
  "Reference_oid rf = Inl (AttributeError ''oid'')"

definition create_commit ::
  "string \<Rightarrow> tree \<Rightarrow> string \<Rightarrow> (string \<times> string) option \<Rightarrow> (string \<times> string) option
     \<Rightarrow> commit list option \<Rightarrow> int \<Rightarrow> workspace \<Rightarrow> (error + commit) \<times> workspace" where
  "create_commit rf t message author committer parents now ws =
     (let author1 = (case author of None \<Rightarrow> DEFAULT_GIT_USER (config ws) | Some a \<Rightarrow> a);
          committer1 = (case committer of None \<Rightarrow> author1 | Some c \<Rightarrow> c);
          default_offset = DEFAULT_TZ_OFFSET (config ws);
          author2 = make_signature author1 now default_offset;
          committer2 = make_signature committer1 now default_offset;
          parents1 =
            (case parents of
               Some ps \<Rightarrow> Inr ps
             | None \<Rightarrow>
                 (case lookup_reference (repo ws) rf of
                    Inl KeyError \<Rightarrow> Inr []
                  | Inl e \<Rightarrow> Inl e
                  | Inr parent_ref \<Rightarrow>
                      (case Reference_oid parent_ref of
                         Inl e \<Rightarrow> Inl e
                       | Inr oid \<Rightarrow> Inr [oid])))
      in case parents1 of
           Inl e \<Rightarrow> (Inl e, ws)
         | Inr ps \<Rightarrow>
             (let (c, r') = repo_create_commit (repo ws) rf author2 committer2 message t ps
              in (Inr c, ws\<lparr>repo := r'\<rparr>)))"

text \<open>\<^verbatim>\<open>commit(message, author, committer)\<close> returns \<^verbatim>\<open>None\<close> when there is
  nothing to commit, the id of the new commit otherwise.\<close>

definition commit ::
  "string \<Rightarrow> (string \<times> string) option \<Rightarrow> (string \<times> string) option \<Rightarrow> int
     \<Rightarrow> workspace \<Rightarrow> (error + commit option) \<times> workspace" where
  "commit message author committer now ws =
     (case has_changes ws of
        (Inl e, ws1) \<Rightarrow> (Inl e, ws1)
      | (Inr False, ws1) \<Rightarrow> (Inr None, ws1)
      | (Inr True, ws1) \<Rightarrow>
          (case branch ws1 of
             Inl e \<Rightarrow> (Inl e, ws1)
           | Inr b \<Rightarrow>
               (let parents = (case b of None \<Rightarrow> [] | Some bv \<Rightarrow> [branch_commit bv])
                in case index ws1 of
                     None \<Rightarrow> (Inl (AttributeError ''oid''), ws1)
                   | Some idx \<Rightarrow>
                       (case create_commit (head ws1) idx message author committer
                               (Some parents) now ws1 of
                          (Inl e, ws2) \<Rightarrow> (Inl e, ws2)
                        | (Inr c, ws2) \<Rightarrow> (Inr (Some c), ws2)))))"

subsection \<open>Generator-based context managers\<close>

text \<open>
  A function decorated with \<^verbatim>\<open>contextmanager\<close> whose body is
  \<^verbatim>\<open>before; yield; after\<close>, with no \<^verbatim>\<open>try\<close> around the \<^verbatim>\<open>yield\<close>: entering
  the \<^verbatim>\<open>with\<close> statement runs \<open>before\<close>; an exception there leaves the statement
  without running the block. An exception of the block is thrown into the generator at
  the \<^verbatim>\<open>yield\<close>, where nothing catches it, so \<open>after\<close> does not run and the
  exception leaves the statement. Only a block that ends normally resumes the generator
  and runs \<open>after\<close>.
\<close>

definition contextmanager ::
  "(workspace \<Rightarrow> (error + 'h) \<times> workspace) \<Rightarrow>
   ('h \<Rightarrow> workspace \<Rightarrow> (error + 'b) \<times> workspace) \<Rightarrow>
   (workspace \<Rightarrow> (error + 'a) \<times> workspace) \<Rightarrow>
   workspace \<Rightarrow> (error + 'a) \<times> workspace" where
  "contextmanager before after block ws =
     (case before ws of
        (Inl e, ws1) \<Rightarrow> (Inl e, ws1)
      | (Inr h, ws1) \<Rightarrow>
          (case block ws1 of
             (Inl e, ws2) \<Rightarrow> (Inl e, ws2)
           | (Inr v, ws2) \<Rightarrow>
               (case after h ws2 of
                  (Inl e, ws3) \<Rightarrow> (Inl e, ws3)
                | (Inr _, ws3) \<Rightarrow> (Inr v, ws3))))"

definition dirty_msg :: string where
  "dirty_msg = ''Repository has pending changes. Cannot auto-commit until pending changes have been comitted.''"

definition commit_on_success_before :: "workspace \<Rightarrow> (error + unit) \<times> workspace" where
  "commit_on_success_before ws =
     (case has_changes ws of
        (Inl e, ws1) \<Rightarrow> (Inl e, ws1)
      | (Inr True, ws1) \<Rightarrow> (Inl (RepositoryError dirty_msg), ws1)
      | (Inr False, ws1) \<Rightarrow> (Inr (), ws1))"

definition commit_on_success ::
  "string \<Rightarrow> (string \<times> string) option \<Rightarrow> (string \<times> string) option \<Rightarrow> int
     \<Rightarrow> (workspace \<Rightarrow> (error + 'a) \<times> workspace)
     \<Rightarrow> workspace \<Rightarrow> (error + 'a) \<times> workspace" where
  "commit_on_success message author committer now block ws =
     contextmanager commit_on_success_before
       (\<lambda>_. commit message author committer now) block ws"

subsection \<open>Locks\<close>

definition locked :: "string \<Rightarrow> workspace \<Rightarrow> bool" where
  "locked lid ws =
     (case lookup_reference (repo ws) (''refs/locks/'' @ lid) of
        Inl _ \<Rightarrow> False
      | Inr _ \<Rightarrow> True)"

definition create_blob :: "string \<Rightarrow> workspace \<Rightarrow> node \<times> workspace" where
  "create_blob content ws =
     (let (blob, r') = repo_create_blob (repo ws) content in (blob, ws\<lparr>repo := r'\<rparr>))"

text \<open>
  Three names that \<^verbatim>\<open>lock\<close> uses are bound to nothing that has them.
  The class \<^verbatim>\<open>Workspace\<close> defines neither an attribute \<^verbatim>\<open>path\<close> nor a method
  \<^verbatim>\<open>create_reference\<close> (the store's method is \<^verbatim>\<open>self.repo.create_reference\<close>),
  and the module binds \<^verbatim>\<open>time\<close> by \<^verbatim>\<open>from time import time\<close> to the function,
  which has no attribute \<^verbatim>\<open>sleep\<close>. Reading any of them raises
  \<^verbatim>\<open>AttributeError\<close>.
\<close>

definition Workspace_path :: "workspace \<Rightarrow> error + string" where
  "Workspace_path ws = Inl (AttributeError ''path'')"

definition time_sleep :: "int \<Rightarrow> error + unit" where
  "time_sleep seconds = Inl (AttributeError ''sleep'')"

definition Workspace_create_reference ::
  "string \<Rightarrow> node \<Rightarrow> workspace \<Rightarrow> (error + reference) \<times> workspace" where
  "Workspace_create_reference name t ws = (Inl (AttributeError ''create_reference''), ws)"

text \<open>
  The acquire loop of \<^verbatim>\<open>lock\<close>. \<open>clock\<close> holds the readings that the successive
  calls of \<^verbatim>\<open>time()\<close> inside the loop return; the result is \<open>None\<close> where the
  readings run out before the loop has ended.
\<close>

fun lock_wait :: "int \<Rightarrow> int list \<Rightarrow> string \<Rightarrow> workspace \<Rightarrow> (error + unit) option" where
  "lock_wait start_time clock lid ws =
     (if locked lid ws then
        (case clock of
           [] \<Rightarrow> None
         | t # clock' \<Rightarrow>
             if t - start_time > LOCK_WAIT_TIMEOUT (config ws) then
               (case Workspace_path ws of
                  Inl e \<Rightarrow> Some (Inl e)
                | Inr _ \<Rightarrow> Some (Inl LockWaitTimeoutExceeded))
             else
               (case time_sleep (LOCK_WAIT_INTERVAL (config ws)) of
                  Inl e \<Rightarrow> Some (Inl e)
                | Inr _ \<Rightarrow> lock_wait start_time clock' lid ws))
      else Some (Inr ()))"

text \<open>The generator of \<^verbatim>\<open>lock\<close> up to its \<^verbatim>\<open>yield\<close>, for a loop that has
  ended with \<open>waited\<close>, and after it.\<close>

definition lock_before ::
  "error + unit \<Rightarrow> string \<Rightarrow> workspace \<Rightarrow> (error + reference) \<times> workspace" where
  "lock_before waited lid ws =
     (case waited of
        Inl e \<Rightarrow> (Inl e, ws)
      | Inr _ \<Rightarrow>
          (let (emptyblob, ws1) = create_blob [] ws
           in Workspace_create_reference (''refs/locks/'' @ lid) emptyblob ws1))"

definition lock_after :: "reference \<Rightarrow> workspace \<Rightarrow> (error + unit) \<times> workspace" where
  "lock_after rf ws = (Inr (), ws\<lparr>repo := delete_reference (repo ws) rf\<rparr>)"

text \<open>\<^verbatim>\<open>with ws.lock(lid): block\<close>. The first reading of the clock is
  \<^verbatim>\<open>start_time\<close>.\<close>

definition lock ::
  "int list \<Rightarrow> string \<Rightarrow> (workspace \<Rightarrow> (error + 'a) \<times> workspace) \<Rightarrow> workspace
     \<Rightarrow> ((error + 'a) \<times> workspace) option" where
  "lock clock lid block ws =
     (case clock of
        [] \<Rightarrow> None
      | start_time # clock' \<Rightarrow>
          (case lock_wait start_time clock' lid ws of
             None \<Rightarrow> None
           | Some waited \<Rightarrow>
               Some (contextmanager (lock_before waited lid) lock_after block ws)))"

subsection \<open>Adding entries to the index\<close>

text \<open>\<^verbatim>\<open>os.path.split\<close> of the standard library (\<^verbatim>\<open>posixpath\<close>): the tail is what
  follows the last slash; the head is what precedes it, without its trailing slashes
  unless it consists of slashes only.\<close>

definition is_slash :: "char \<Rightarrow> bool" where
  "is_slash c = (c = CHR ''/'')"

definition rstrip_slash :: "string \<Rightarrow> string" where
  "rstrip_slash s = rev (dropWhile is_slash (rev s))"

definition os_path_split :: "string \<Rightarrow> string \<times> string" where
  "os_path_split p =
     (let tail = rev (takeWhile (\<lambda>c. \<not> is_slash c) (rev p));
          head = take (length p - length tail) p
      in (if head \<noteq> [] \<and> \<not> list_all is_slash head then rstrip_slash head else head, tail))"

text \<open>The segments of a slash-delimited path; the empty path is the root.\<close>

fun split_slash :: "string \<Rightarrow> string list" where
  "split_slash [] = [[]]"
| "split_slash (c # cs) =
     (if is_slash c then [] # split_slash cs
      else (case split_slash cs of
              [] \<Rightarrow> [[c]]
            | s # ss \<Rightarrow> (c # s) # ss))"

definition path_segments :: "string \<Rightarrow> string list" where
  "path_segments p = filter (\<lambda>s. s \<noteq> []) (split_slash p)"

text \<open>\<^verbatim>\<open>tb.insert(name, oid, mode)\<close> on a tree builder: an entry of the same name is
  replaced, the others are kept.\<close>

definition tb_insert :: "string \<times> node \<times> filemode \<Rightarrow> tree \<Rightarrow> tree" where
  "tb_insert entry t = AList.update (fst entry) (snd entry) t"

text \<open>
  Modelled from the spec: \<^verbatim>\<open>git.build_path(repo, path, entries, tree)\<close> of
  \<^verbatim>\<open>gitmodel/utils/git.py\<close>, which is not among the sources. The spec says of it: walk
  the tree by path segment; at each segment descend into the existing subtree or create
  an empty one if absent; at the leaf path merge the new entries into that subtree's
  entries (entries with equal names are replaced, others preserved); rebuild each
  ancestor tree bottom-up, each rebuilt tree newly written to the store; a segment that
  collides with an existing blob fails with a structural conflict. It returns the id of
  the new root.
\<close>

fun build_path ::
  "repository \<Rightarrow> string list \<Rightarrow> tree \<Rightarrow> tree \<Rightarrow> error + (tree \<times> repository)" where
  "build_path r [] entries t = Inr (TreeBuilder_write r (fold tb_insert entries t))"
| "build_path r (s # p) entries t =
     (case map_of t s of
        Some (Blob _, _) \<Rightarrow> Inl (TreeConflict s)
      | found \<Rightarrow>
          (let sub = (case found of Some (Tree sub, _) \<Rightarrow> sub | _ \<Rightarrow> [])
           in case build_path r p entries sub of
                Inl e \<Rightarrow> Inl e
              | Inr (sub', r1) \<Rightarrow>
                  Inr (TreeBuilder_write r1 (tb_insert (s, Tree sub', GIT_FILEMODE_TREE) t))))"

text \<open>\<^verbatim>\<open>add(path, entries)\<close>: the tree is built from the current index, and the
  index becomes the tree of the returned id. A builder without a base tree starts
  empty.\<close>

definition add :: "string \<Rightarrow> tree \<Rightarrow> workspace \<Rightarrow> (error + unit) \<times> workspace" where
  "add path entries ws =
     (case build_path (repo ws) (path_segments path) entries
             (case index ws of None \<Rightarrow> [] | Some idx \<Rightarrow> idx) of
        Inl e \<Rightarrow> (Inl e, ws)
      | Inr (oid, r') \<Rightarrow> (Inr (), ws\<lparr>repo := r', index := Some oid\<rparr>))"

definition add_blob ::
  "string \<Rightarrow> string \<Rightarrow> filemode \<Rightarrow> workspace \<Rightarrow> (error + node) \<times> workspace" where
  "add_blob path content mode ws =
     (let (path1, name) = os_path_split path;
          (blob, r') = repo_create_blob (repo ws) content;
          ws1 = ws\<lparr>repo := r'\<rparr>;
          entry = (name, blob, mode)
      in case add path1 [entry] ws1 of
           (Inl e, ws2) \<Rightarrow> (Inl e, ws2)
         | (Inr _, ws2) \<Rightarrow> (Inr blob, ws2))"

section \<open>Example states\<close>

definition ex_cfg :: config where
  "ex_cfg = \<lparr>LOCK_WAIT_TIMEOUT = 5, LOCK_WAIT_INTERVAL = 1,
             DEFAULT_GIT_USER = (''gitmodel'', ''gitmodel@local''),
             DEFAULT_TZ_OFFSET = None\<rparr>"

definition ex_sig :: signature where
  "ex_sig = \<lparr>sig_name = ''gitmodel'', sig_email = ''gitmodel@local'', sig_time = 0,
             sig_offset = None\<rparr>"

definition ex_tree :: tree where
  "ex_tree = [(''a'', Blob ''x'', GIT_FILEMODE_BLOB)]"

definition ex_tree2 :: tree where
  "ex_tree2 = [(''a'', Blob ''y'', GIT_FILEMODE_BLOB)]"

definition ex_commit :: commit where
  "ex_commit = Commit ex_tree [] ex_sig ex_sig ''first''"

definition ex_commit2 :: commit where
  "ex_commit2 = Commit ex_tree2 [ex_commit] ex_sig ex_sig ''second''"

text \<open>A store with two branches and a lock, and an empty store.\<close>

definition ex_repo :: repository where
  "ex_repo =
     \<lparr>objects = {ONode (Blob ''x''), ONode (Blob ''y''), ONode (Blob []),
                 ONode (Tree ex_tree), ONode (Tree ex_tree2),
                 OCommit ex_commit, OCommit ex_commit2},
      references = [''refs/heads/master'' \<mapsto> OCommit ex_commit,
                    ''refs/heads/dev'' \<mapsto> OCommit ex_commit2,
                    ''refs/locks/job'' \<mapsto> ONode (Blob [])]\<rparr>"

definition ex_empty_repo :: repository where
  "ex_empty_repo = \<lparr>objects = {}, references = Map.empty\<rparr>"

text \<open>A clean workspace on master, one with a pending change, and one on an unborn
  branch.\<close>

definition ex_ws :: workspace where
  "ex_ws = \<lparr>config = ex_cfg, repo = ex_repo, head = ''refs/heads/master'',
            index = Some ex_tree\<rparr>"

definition ex_dirty_ws :: workspace where
  "ex_dirty_ws = ex_ws\<lparr>index := Some ex_tree2\<rparr>"

definition ex_unborn_ws :: workspace where
  "ex_unborn_ws = \<lparr>config = ex_cfg, repo = ex_empty_repo, head = ''refs/heads/master'',
                   index = Some []\<rparr>"


definition ex_block_edits :: "workspace \<Rightarrow> (error + unit) \<times> workspace" where
  "ex_block_edits ws = (Inr (), ws\<lparr>index := Some ex_tree2\<rparr>)"

definition ex_block_edits_raises :: "workspace \<Rightarrow> (error + unit) \<times> workspace" where
  "ex_block_edits_raises ws = (Inl (Raised ''boom''), ws\<lparr>index := Some ex_tree2\<rparr>)"

definition ex_fs :: "string \<rightharpoonup> repository" where
  "ex_fs = [''/srv/repo'' \<mapsto> ex_repo, ''/srv/new'' \<mapsto> ex_empty_repo]"

definition ex_master :: branch_view where
  "ex_master =
     \<lparr>branch_ref = Reference ''refs/heads/master'' (OCommit ex_commit),
      branch_commit = ex_commit, branch_oid = OCommit ex_commit, branch_tree = ex_tree\<rparr>"

definition ex_block_returns :: "workspace \<Rightarrow> (error + unit) \<times> workspace" where
  "ex_block_returns ws = (Inr (), ws)"

text \<open>The workspace constructed on the unborn head \<^verbatim>\<open>refs/heads/new\<close> of the
  example store, and that workspace after \<^verbatim>\<open>create_branch('new', 'refs/heads/master')\<close>.\<close>

definition ex_fresh_ws :: workspace where
  "ex_fresh_ws =
     \<lparr>config = ex_cfg,
      repo = ex_repo\<lparr>objects := insert (ONode (Tree [])) (objects ex_repo)\<rparr>,
      head = ''refs/heads/new'', index = Some []\<rparr>"

definition ex_branched_ws :: workspace where
  "ex_branched_ws =
     ex_fresh_ws\<lparr>repo := (repo ex_fresh_ws)\<lparr>references :=
        (references (repo ex_fresh_ws))(''refs/heads/new'' \<mapsto> OCommit ex_commit)\<rparr>\<rparr>"

section \<open>Notions used in the statements\<close>

text \<open>The tree that \<^verbatim>\<open>diff\<close> compares the index with: the branch's tree, or the
  empty tree when there is no branch.\<close>

definition base_tree :: "branch_view option \<Rightarrow> tree" where
  "base_tree b = (case b of None \<Rightarrow> [] | Some bv \<Rightarrow> branch_tree bv)"

text \<open>The workspace after the empty tree has been written to its store.\<close>

definition wrote_empty_tree :: "workspace \<Rightarrow> workspace" where
  "wrote_empty_tree ws =
     ws\<lparr>repo := (repo ws)\<lparr>objects := insert (ONode (Tree [])) (objects (repo ws))\<rparr>\<rparr>"

text \<open>The commits of a store.\<close>

definition commits :: "repository \<Rightarrow> commit set" where
  "commits r = {c. OCommit c \<in> objects r}"

text \<open>The commit that \<^verbatim>\<open>commit\<close> builds on the branch \<open>b\<close> from the index
  \<open>idx\<close>.\<close>

definition new_commit ::
  "string \<Rightarrow> (string \<times> string) option \<Rightarrow> (string \<times> string) option \<Rightarrow> int \<Rightarrow> workspace
     \<Rightarrow> branch_view option \<Rightarrow> tree \<Rightarrow> commit" where
  "new_commit m a co now ws b idx =
     (let author1 = (case a of None \<Rightarrow> DEFAULT_GIT_USER (config ws) | Some x \<Rightarrow> x);
          committer1 = (case co of None \<Rightarrow> author1 | Some x \<Rightarrow> x)
      in Commit idx (case b of None \<Rightarrow> [] | Some bv \<Rightarrow> [branch_commit bv])
           (make_signature author1 now (DEFAULT_TZ_OFFSET (config ws)))
           (make_signature committer1 now (DEFAULT_TZ_OFFSET (config ws))) m)"

section \<open>Auxiliary facts\<close>

lemma diff_to_tree_same: "diff_to_tree t t = []"
  by (simp add: diff_to_tree_def)

lemma branch_cases:
  "branch ws =
     (case references (repo ws) (head ws) of
        None \<Rightarrow> Inr None
      | Some (OCommit c) \<Rightarrow>
          Inr (Some \<lparr>branch_ref = Reference (head ws) (OCommit c), branch_commit = c,
                     branch_oid = OCommit c, branch_tree = commit_tree c\<rparr>)
      | Some (ONode n) \<Rightarrow> Inl (AttributeError ''tree''))"
  by (simp add: branch_def Branch_init_def lookup_reference_def split: option.splits obj.splits)

lemma diff_branch:
  "branch ws = Inr (Some b) \<Longrightarrow> index ws = Some idx \<Longrightarrow>
   diff ws = (Inr (diff_to_tree (branch_tree b) idx), ws)"
  by (simp add: diff_def)

lemma diff_unborn:
  "branch ws = Inr None \<Longrightarrow> index ws = Some idx \<Longrightarrow>
   diff ws = (Inr (diff_to_tree [] idx), wrote_empty_tree ws)"
  by (simp add: diff_def TreeBuilder_write_def wrote_empty_tree_def)

lemma has_changes_eq:
  "has_changes ws =
     (case branch ws of
        Inl e \<Rightarrow> (Inl e, ws)
      | Inr b \<Rightarrow>
          (case index ws of
             None \<Rightarrow> (Inl TypeError, if b = None then wrote_empty_tree ws else ws)
           | Some idx \<Rightarrow>
               (Inr (diff_to_tree (base_tree b) idx \<noteq> []),
                if b = None then wrote_empty_tree ws else ws)))"
  by (simp add: has_changes_def diff_def TreeBuilder_write_def wrote_empty_tree_def
        base_tree_def Let_def split: sum.splits option.splits)

lemma has_changes_state:
  "snd (has_changes ws) = (if branch ws = Inr None then wrote_empty_tree ws else ws)"
  by (simp add: has_changes_eq split: sum.splits option.splits)

lemma has_changes_result:
  "branch ws = Inr b \<Longrightarrow> index ws = Some idx \<Longrightarrow>
   fst (has_changes ws) = Inr (diff_to_tree (base_tree b) idx \<noteq> [])"
  by (simp add: has_changes_eq)

lemma has_changes_returns:
  "fst (has_changes ws) = Inr c \<Longrightarrow> \<exists>b idx. branch ws = Inr b \<and> index ws = Some idx"
  by (auto simp: has_changes_eq split: sum.splits option.splits)

lemma wrote_empty_tree_fields:
  "head (wrote_empty_tree ws) = head ws"
  "index (wrote_empty_tree ws) = index ws"
  "config (wrote_empty_tree ws) = config ws"
  "references (repo (wrote_empty_tree ws)) = references (repo ws)"
  "objects (repo (wrote_empty_tree ws)) = insert (ONode (Tree [])) (objects (repo ws))"
  "branch (wrote_empty_tree ws) = branch ws"
  by (simp_all add: wrote_empty_tree_def branch_cases split: option.splits obj.splits)

lemma has_changes_fields:
  "head (snd (has_changes ws)) = head ws"
  "index (snd (has_changes ws)) = index ws"
  "config (snd (has_changes ws)) = config ws"
  "references (repo (snd (has_changes ws))) = references (repo ws)"
  "branch (snd (has_changes ws)) = branch ws"
  by (simp_all add: has_changes_state wrote_empty_tree_fields)

lemma has_changes_commits: "commits (repo (snd (has_changes ws))) = commits (repo ws)"
  by (simp add: has_changes_state wrote_empty_tree_fields commits_def)

lemma has_changes_again:
  "fst (has_changes (snd (has_changes ws))) = fst (has_changes ws)"
  by (simp add: has_changes_eq [of "snd (has_changes ws)"] has_changes_fields)
     (auto simp: has_changes_eq wrote_empty_tree_fields split: sum.splits option.splits)

lemma commit_clean:
  "fst (has_changes ws) = Inr False \<Longrightarrow>
   commit m a co now ws = (Inr None, snd (has_changes ws))"
  by (cases "has_changes ws") (simp add: commit_def)

lemma commit_dirty:
  assumes "fst (has_changes ws) = Inr True" "branch ws = Inr b" "index ws = Some idx"
  shows "commit m a co now ws =
     (let k = new_commit m a co now ws b idx; ws1 = snd (has_changes ws)
      in (Inr (Some k),
          ws1\<lparr>repo := (repo ws1)\<lparr>objects := insert (OCommit k) (objects (repo ws1)),
                     references := (references (repo ws1))(head ws \<mapsto> OCommit k)\<rparr>\<rparr>))"
proof -
  obtain ws1 where hc: "has_changes ws = (Inr True, ws1)"
    using assms(1) by (cases "has_changes ws") simp
  have ws1: "ws1 = snd (has_changes ws)" using hc by simp
  have f: "branch ws1 = Inr b" "index ws1 = Some idx" "head ws1 = head ws" "config ws1 = config ws"
    using assms by (simp_all add: ws1 has_changes_fields)
  have "commit m a co now ws =
     (let k = new_commit m a co now ws b idx
      in (Inr (Some k),
          ws1\<lparr>repo := (repo ws1)\<lparr>objects := insert (OCommit k) (objects (repo ws1)),
                     references := (references (repo ws1))(head ws \<mapsto> OCommit k)\<rparr>\<rparr>))"
    using hc f
    by (simp add: commit_def create_commit_def repo_create_commit_def new_commit_def Let_def
          cong: option.case_cong)
  then show ?thesis by (simp add: ws1 Let_def)
qed


lemma ex_branch:
  "branch ex_ws = Inr (Some \<lparr>branch_ref = Reference ''refs/heads/master'' (OCommit ex_commit),
      branch_commit = ex_commit, branch_oid = OCommit ex_commit, branch_tree = ex_tree\<rparr>)"
  "branch ex_dirty_ws = branch ex_ws"
  "branch ex_unborn_ws = Inr None"
  by (simp_all add: branch_cases ex_ws_def ex_dirty_ws_def ex_unborn_ws_def
        ex_repo_def ex_empty_repo_def ex_commit_def)

lemma ex_fields:
  "head ex_ws = ''refs/heads/master''" "index ex_ws = Some ex_tree" "repo ex_ws = ex_repo"
  "head ex_dirty_ws = ''refs/heads/master''" "index ex_dirty_ws = Some ex_tree2"
  "repo ex_dirty_ws = ex_repo"
  "head ex_unborn_ws = ''refs/heads/master''" "index ex_unborn_ws = Some []"
  "repo ex_unborn_ws = ex_empty_repo"
  by (simp_all add: ex_ws_def ex_dirty_ws_def ex_unborn_ws_def)

lemma ex_diffs:
  "diff_to_tree ex_tree ex_tree2 = [[''a'']]"
  "diff_to_tree ex_tree [] = [[''a'']]"
  "diff_to_tree [] ex_tree = [[''a'']]"
  by (simp_all add: diff_to_tree_def tree_paths_def ex_tree_def ex_tree2_def)

lemma ex_has_changes:
  "fst (has_changes ex_ws) = Inr False"
  "fst (has_changes ex_dirty_ws) = Inr True"
  "fst (has_changes ex_unborn_ws) = Inr False"
  by (simp_all add: has_changes_eq ex_branch ex_fields base_tree_def diff_to_tree_same ex_diffs)


lemma contextmanager_before_raises:
  "fst (before ws) = Inl e \<Longrightarrow> contextmanager before after block ws = (Inl e, snd (before ws))"
  by (cases "before ws") (simp add: contextmanager_def)

lemma contextmanager_block_raises:
  "fst (before ws) = Inr h \<Longrightarrow> fst (block (snd (before ws))) = Inl e \<Longrightarrow>
   contextmanager before after block ws = (Inl e, snd (block (snd (before ws))))"
  by (cases "before ws"; cases "block (snd (before ws))") (simp add: contextmanager_def)

lemma contextmanager_block_returns:
  "fst (before ws) = Inr h \<Longrightarrow> fst (block (snd (before ws))) = Inr v \<Longrightarrow>
   contextmanager before after block ws =
     (case after h (snd (block (snd (before ws)))) of
        (Inl e, ws3) \<Rightarrow> (Inl e, ws3)
      | (Inr _, ws3) \<Rightarrow> (Inr v, ws3))"
  by (cases "before ws"; cases "block (snd (before ws))") (simp add: contextmanager_def)

lemma commit_on_success_before_eq:
  "commit_on_success_before ws =
     (case fst (has_changes ws) of
        Inl e \<Rightarrow> Inl e
      | Inr True \<Rightarrow> Inl (RepositoryError dirty_msg)
      | Inr False \<Rightarrow> Inr (), snd (has_changes ws))"
  by (cases "has_changes ws") (simp add: commit_on_success_before_def split: sum.splits bool.splits)

lemma ex_has_changes_state:
  "snd (has_changes ex_ws) = ex_ws" "snd (has_changes ex_dirty_ws) = ex_dirty_ws"
  by (simp_all add: has_changes_state ex_branch)

lemma Branch_init_cases:
  "Branch_init r name =
     (case references r name of
        None \<Rightarrow> Inl KeyError
      | Some (OCommit c) \<Rightarrow>
          Inr \<lparr>branch_ref = Reference name (OCommit c), branch_commit = c,
               branch_oid = OCommit c, branch_tree = commit_tree c\<rparr>
      | Some (ONode n) \<Rightarrow> Inl (AttributeError ''tree''))"
  by (simp add: Branch_init_def lookup_reference_def split: option.splits obj.splits)

lemma Branch_init_returns:
  "Branch_init r name = Inr b \<Longrightarrow>
   \<exists>c. references r name = Some (OCommit c) \<and> branch_tree b = commit_tree c \<and>
       branch_commit b = c"
  by (auto simp: Branch_init_cases split: option.splits obj.splits)

lemma update_index_fresh:
  "index ws = None \<Longrightarrow> references (repo ws) rf = Some (OCommit c) \<Longrightarrow>
   update_index rf ws = (Inr (), ws\<lparr>head := rf, index := Some (commit_tree c)\<rparr>)"
  by (simp add: update_index_def truthy_def lookup_reference_def branch_cases)

lemma Workspace_init_not_found:
  "fs p = None \<Longrightarrow> Workspace_init cfg fs p h = Inl RepositoryNotFound"
  by (simp add: Workspace_init_def pygit2_Repository_def)

lemma Workspace_init_branch:
  "fs p = Some r \<Longrightarrow> references r h = Some (OCommit c) \<Longrightarrow>
   Workspace_init cfg fs p h =
     Inr \<lparr>config = cfg, repo = r, head = h, index = Some (commit_tree c)\<rparr>"
  by (simp add: Workspace_init_def pygit2_Repository_def lookup_reference_def update_index_fresh)

lemma Workspace_init_unborn:
  "fs p = Some r \<Longrightarrow> references r h = None \<Longrightarrow>
   Workspace_init cfg fs p h =
     Inr \<lparr>config = cfg, repo = r\<lparr>objects := insert (ONode (Tree [])) (objects r)\<rparr>,
          head = h, index = Some []\<rparr>"
  by (simp add: Workspace_init_def pygit2_Repository_def lookup_reference_def
        TreeBuilder_write_def)

lemma Workspace_init_not_a_commit:
  "fs p = Some r \<Longrightarrow> references r h = Some (ONode n) \<Longrightarrow>
   Workspace_init cfg fs p h = Inl (AttributeError ''tree'')"
  by (simp add: Workspace_init_def pygit2_Repository_def lookup_reference_def update_index_def
        truthy_def branch_cases)

lemma ex_fs_at:
  "ex_fs ''/srv/repo'' = Some ex_repo" "ex_fs ''/srv/new'' = Some ex_empty_repo"
  "ex_fs ''/srv/none'' = None"
  by (simp_all add: ex_fs_def)

lemma ex_refs:
  "references ex_repo ''refs/heads/master'' = Some (OCommit ex_commit)"
  "references ex_repo ''refs/heads/dev'' = Some (OCommit ex_commit2)"
  "references ex_repo ''refs/locks/job'' = Some (ONode (Blob []))"
  "references ex_repo ''refs/heads/topic'' = None"
  "references ex_empty_repo n = None"
  by (simp_all add: ex_repo_def ex_empty_repo_def)

lemma set_branch_eq:
  "set_branch name ws =
     (case references (repo ws) (''refs/heads/'' @ name) of
        None \<Rightarrow> (Inl (RepositoryError (not_found_msg (''refs/heads/'' @ name))), ws)
      | Some t \<Rightarrow> update_index (''refs/heads/'' @ name) ws)"
  by (simp add: set_branch_def lookup_reference_def Let_def split: option.splits)

lemma update_index_pending:
  "truthy (index ws) \<Longrightarrow> fst (has_changes ws) = Inr True \<Longrightarrow>
   update_index rf ws = (Inl (RepositoryError pending_msg), snd (has_changes ws))"
  by (cases "has_changes ws") (simp add: update_index_def)

lemma update_index_switch:
  assumes "\<not> truthy (index ws) \<or> fst (has_changes ws) = Inr False"
    and "references (repo ws) rf = Some (OCommit c)"
  shows "fst (update_index rf ws) = Inr ()"
    and "head (snd (update_index rf ws)) = rf"
    and "index (snd (update_index rf ws)) = Some (commit_tree c)"
    and "references (repo (snd (update_index rf ws))) = references (repo ws)"
proof -
  define ws1 where "ws1 = (if truthy (index ws) then snd (has_changes ws) else ws)"
  have g: "(if truthy (index ws) then has_changes ws else (Inr False, ws)) = (Inr False, ws1)"
    using assms(1) by (cases "has_changes ws") (auto simp: ws1_def)
  have r: "references (repo ws1) = references (repo ws)"
    by (simp add: ws1_def has_changes_fields)
  have "update_index rf ws = (Inr (), ws1\<lparr>head := rf, index := Some (commit_tree c)\<rparr>)"
    unfolding update_index_def g using assms(2) r
    by (simp add: lookup_reference_def branch_cases)
  then show "fst (update_index rf ws) = Inr ()" "head (snd (update_index rf ws)) = rf"
    "index (snd (update_index rf ws)) = Some (commit_tree c)"
    "references (repo (snd (update_index rf ws))) = references (repo ws)"
    using r by simp_all
qed

lemma locked_eq: "locked lid ws = (references (repo ws) (''refs/locks/'' @ lid) \<noteq> None)"
  by (simp add: locked_def lookup_reference_def split: option.splits)

lemma lock_wait_held:
  "locked lid ws \<Longrightarrow>
   lock_wait start_time (t # clock) lid ws =
     Some (Inl (AttributeError
        (if t - start_time > LOCK_WAIT_TIMEOUT (config ws) then ''path'' else ''sleep'')))"
  by (simp add: Workspace_path_def time_sleep_def)

lemma lock_wait_free: "\<not> locked lid ws \<Longrightarrow> lock_wait start_time clock lid ws = Some (Inr ())"
  by simp

lemma lock_held:
  "locked lid ws \<Longrightarrow>
   lock (start_time # t # clock) lid block ws =
     Some (Inl (AttributeError
        (if t - start_time > LOCK_WAIT_TIMEOUT (config ws) then ''path'' else ''sleep'')), ws)"
  by (simp add: lock_def lock_wait_held lock_before_def contextmanager_def del: lock_wait.simps)

lemma lock_free:
  "\<not> locked lid ws \<Longrightarrow>
   lock (start_time # clock) lid block ws =
     Some (Inl (AttributeError ''create_reference''),
           ws\<lparr>repo := (repo ws)\<lparr>objects := insert (ONode (Blob [])) (objects (repo ws))\<rparr>\<rparr>)"
  by (simp add: lock_def lock_wait_free lock_before_def contextmanager_def create_blob_def
        repo_create_blob_def Workspace_create_reference_def del: lock_wait.simps)

lemma ex_locked: "locked ''job'' ex_ws" "\<not> locked ''free'' ex_ws"
  by (simp_all add: locked_eq ex_fields ex_repo_def)

lemma tree_file_empty: "tree_file [] p = None"
proof (cases p)
  case Nil
  then show ?thesis by simp
next
  case (Cons n q)
  then show ?thesis by (cases q) simp_all
qed

lemma node_paths_entry:
  "(n, nd, m) \<in> set t \<Longrightarrow> q \<in> set (node_paths nd) \<Longrightarrow> n # q \<in> set (node_paths (Tree t))"
  by force

lemma tree_file_in_paths: "tree_file t p = Some x \<Longrightarrow> p \<in> set (tree_paths t)"
proof (induction t p rule: tree_file.induct)
  case (1 t)
  then show ?case by simp
next
  case (2 t n)
  then obtain c m where "map_of t n = Some (Blob c, m)"
    by (auto split: option.splits node.splits prod.splits)
  then have "(n, Blob c, m) \<in> set t" by (rule map_of_SomeD)
  then have "n # [] \<in> set (node_paths (Tree t))"
    by (rule node_paths_entry) simp
  then show ?case by (simp add: tree_paths_def)
next
  case (3 t n v va)
  then obtain sub m where s: "map_of t n = Some (Tree sub, m)"
    and f: "tree_file sub (v # va) = Some x"
    by (auto split: option.splits node.splits prod.splits)
  have "v # va \<in> set (node_paths (Tree sub))"
    using "3.IH" [OF s refl refl f] by (simp add: tree_paths_def)
  moreover have "(n, Tree sub, m) \<in> set t" using s by (rule map_of_SomeD)
  ultimately have "n # v # va \<in> set (node_paths (Tree t))"
    by (rule node_paths_entry [rotated])
  then show ?case by (simp add: tree_paths_def)
qed

lemma diff_to_tree_empty:
  "diff_to_tree a b = [] \<Longrightarrow> p \<in> set (tree_paths b) \<Longrightarrow> tree_file a p = tree_file b p"
  by (auto simp: diff_to_tree_def filter_empty_conv)

lemma tb_insert_map_of: "map_of (tb_insert (n, v) t) = (map_of t)(n \<mapsto> v)"
  by (simp add: tb_insert_def update_conv')

lemma build_path_tree_file:
  "build_path r segs [(name, Blob content, mode)] t = Inr (t', r') \<Longrightarrow>
   tree_file t' (segs @ [name]) = Some (content, mode)"
proof (induction segs arbitrary: r t t' r')
  case Nil
  then show ?case
    by (auto simp: TreeBuilder_write_def tb_insert_map_of)
next
  case (Cons s segs)
  from Cons.prems obtain sub sub' r1 where
    b: "build_path r segs [(name, Blob content, mode)] sub = Inr (sub', r1)"
    and t': "t' = tb_insert (s, Tree sub', GIT_FILEMODE_TREE) t"
    by (auto simp: TreeBuilder_write_def Let_def
             split: option.splits node.splits prod.splits sum.splits)
  have "tree_file sub' (segs @ [name]) = Some (content, mode)"
    using b by (rule Cons.IH)
  moreover obtain q qs where "segs @ [name] = q # qs"
    by (cases "segs @ [name]") auto
  ultimately show ?case
    by (simp add: t' tb_insert_map_of)
qed


lemma split_slash_nonempty: "split_slash s \<noteq> []"
  by (induction s) (auto split: list.splits)

lemma split_slash_append:
  "split_slash (a @ CHR ''/'' # b) = split_slash a @ split_slash b"
proof (induction a)
  case Nil
  then show ?case by (simp add: is_slash_def)
next
  case (Cons c a)
  then show ?case
    using split_slash_nonempty [of a] by (cases "split_slash a") auto
qed

lemma split_slash_plain: "list_all (\<lambda>c. \<not> is_slash c) s \<Longrightarrow> split_slash s = [s]"
  by (induction s) auto

lemma path_segments_append:
  "path_segments (a @ CHR ''/'' # b) = path_segments a @ path_segments b"
  by (simp add: path_segments_def split_slash_append)

lemma path_segments_plain:
  "list_all (\<lambda>c. \<not> is_slash c) s \<Longrightarrow> s \<noteq> [] \<Longrightarrow> path_segments s = [s]"
  by (simp add: path_segments_def split_slash_plain)

lemma path_segments_Nil: "path_segments [] = []"
  by (simp add: path_segments_def)

lemma path_segments_rstrip: "path_segments (rev (dropWhile is_slash xs)) = path_segments (rev xs)"
proof (induction xs)
  case Nil
  then show ?case by simp
next
  case (Cons c xs)
  show ?case
  proof (cases "is_slash c")
    case True
    then have "rev (c # xs) = rev xs @ CHR ''/'' # []" by (simp add: is_slash_def)
    then have "path_segments (rev (c # xs)) = path_segments (rev xs)"
      by (simp only: path_segments_append path_segments_Nil append_Nil2)
    with True Cons show ?thesis by simp
  next
    case False
    then show ?thesis by simp
  qed
qed

lemma os_path_split_eq:
  "os_path_split p =
     (let tail = rev (takeWhile (\<lambda>c. \<not> is_slash c) (rev p));
          head = rev (dropWhile (\<lambda>c. \<not> is_slash c) (rev p))
      in (if head \<noteq> [] \<and> \<not> list_all is_slash head then rstrip_slash head else head, tail))"
proof -
  have "rev p = takeWhile (\<lambda>c. \<not> is_slash c) (rev p) @ dropWhile (\<lambda>c. \<not> is_slash c) (rev p)"
    by simp
  then have "p = rev (dropWhile (\<lambda>c. \<not> is_slash c) (rev p)) @
                 rev (takeWhile (\<lambda>c. \<not> is_slash c) (rev p))"
    by (metis rev_append rev_rev_ident)
  then have "take (length p - length (rev (takeWhile (\<lambda>c. \<not> is_slash c) (rev p)))) p =
             rev (dropWhile (\<lambda>c. \<not> is_slash c) (rev p))"
    by (metis append_eq_conv_conj length_append add_diff_cancel_right')
  then show ?thesis unfolding os_path_split_def Let_def by (simp only:)
qed

lemma path_segments_split:
  assumes "snd (os_path_split p) \<noteq> []"
  shows "path_segments p = path_segments (fst (os_path_split p)) @ [snd (os_path_split p)]"
proof -
  define tail where "tail = rev (takeWhile (\<lambda>c. \<not> is_slash c) (rev p))"
  define hd0 where "hd0 = rev (dropWhile (\<lambda>c. \<not> is_slash c) (rev p))"
  have p: "p = hd0 @ tail"
  proof -
    have "rev p = rev tail @ rev hd0" by (simp add: tail_def hd0_def)
    then show ?thesis by (metis rev_append rev_rev_ident)
  qed
  have s: "snd (os_path_split p) = tail"
    by (simp add: os_path_split_eq Let_def tail_def)
  have f: "path_segments (fst (os_path_split p)) = path_segments hd0"
    by (simp add: os_path_split_eq Let_def hd0_def [symmetric] rstrip_slash_def
          path_segments_rstrip)
  have tail: "list_all (\<lambda>c. \<not> is_slash c) tail" "tail \<noteq> []"
    using assms s by (auto simp: tail_def list_all_iff dest: set_takeWhileD)
  have "path_segments (hd0 @ tail) = path_segments hd0 @ [tail]"
  proof (cases "dropWhile (\<lambda>c. \<not> is_slash c) (rev p)")
    case Nil
    then have "hd0 = []" by (simp only: hd0_def rev.simps)
    then show ?thesis using tail by (simp add: path_segments_Nil path_segments_plain)
  next
    case (Cons c cs)
    then have "is_slash c" using hd_dropWhile [of "\<lambda>c. \<not> is_slash c" "rev p"] by auto
    then have h: "hd0 = rev cs @ [CHR ''/'']" using Cons by (simp add: hd0_def is_slash_def)
    have "path_segments hd0 = path_segments (rev cs)"
      unfolding h using path_segments_append [of "rev cs" "[]"] by (simp add: path_segments_Nil)
    moreover have "path_segments (hd0 @ tail) = path_segments (rev cs) @ path_segments tail"
      unfolding h using path_segments_append [of "rev cs" tail] by simp
    ultimately show ?thesis using tail by (simp add: path_segments_plain)
  qed
  then show ?thesis using p s f by simp
qed

lemma build_path_store:
  "build_path r segs es t = Inr (t', r') \<Longrightarrow>
   objects r \<subseteq> objects r' \<and> references r' = references r"
proof (induction segs arbitrary: r t t' r')
  case Nil
  then show ?case by (auto simp: TreeBuilder_write_def)
next
  case (Cons s segs)
  from Cons.prems obtain sub sub' r1 where
    b: "build_path r segs es sub = Inr (sub', r1)"
    and r': "r' = r1\<lparr>objects := insert (ONode (Tree t')) (objects r1)\<rparr>"
    by (auto simp: TreeBuilder_write_def Let_def
             split: option.splits node.splits prod.splits sum.splits)
  from Cons.IH [OF b] show ?case by (auto simp: r')
qed

lemma add_blob_eq:
  "add_blob path content mode ws =
     (case add (fst (os_path_split path)) [(snd (os_path_split path), Blob content, mode)]
             (ws\<lparr>repo := (repo ws)\<lparr>objects := insert (ONode (Blob content)) (objects (repo ws))\<rparr>\<rparr>) of
        (Inl e, ws2) \<Rightarrow> (Inl e, ws2)
      | (Inr u, ws2) \<Rightarrow> (Inr (Blob content), ws2))"
  by (simp add: add_blob_def repo_create_blob_def Let_def split: prod.splits)

lemma add_returns:
  "fst (add path entries ws) = Inr u \<Longrightarrow>
   \<exists>t' r'. build_path (repo ws) (path_segments path) entries
              (case index ws of None \<Rightarrow> [] | Some idx \<Rightarrow> idx) = Inr (t', r') \<and>
           snd (add path entries ws) = ws\<lparr>repo := r', index := Some t'\<rparr>"
  by (auto simp: add_def split: sum.splits prod.splits)

lemma commit_dirty_branch:
  assumes "fst (has_changes ws) = Inr True" "index ws = Some idx"
  shows "\<exists>b. branch (snd (commit m a co now ws)) = Inr (Some b) \<and> branch_tree b = idx"
proof -
  obtain b where b: "branch ws = Inr b"
    using assms(1) has_changes_returns by blast
  show ?thesis
    using commit_dirty [OF assms(1) b assms(2), of m a co now]
    by (simp add: Let_def branch_cases has_changes_fields new_commit_def)
qed

lemma commit_returns:
  "fst (has_changes ws) = Inr c \<Longrightarrow> \<exists>res. fst (commit m a co now ws) = Inr res"
proof (cases c)
  case True
  assume "fst (has_changes ws) = Inr c"
  with True have d: "fst (has_changes ws) = Inr True" by simp
  then obtain b idx where "branch ws = Inr b" "index ws = Some idx"
    using has_changes_returns by blast
  then show ?thesis using commit_dirty [OF d, of b idx m a co now] by (simp add: Let_def)
next
  case False
  assume "fst (has_changes ws) = Inr c"
  with False show ?thesis by (simp add: commit_clean)
qed
section \<open>The claims\<close>

text \<open>
  C4. \<^verbatim>\<open>commit\<close> returns \<^verbatim>\<open>None\<close> when \<^verbatim>\<open>has_changes()\<close> is false, and
  then the store has the commits it had, every reference is where it was, and head and
  index are unchanged. When \<^verbatim>\<open>has_changes()\<close> is true it returns a commit \<open>k\<close>
  whose tree is the index, whose parents are the branch's commit alone when the head
  resolves and none when it does not, and whose message is the one given; the store's
  commits are then those it had and \<open>k\<close>, the head reference points at \<open>k\<close>
  and no other reference has moved. (An id is the content: a commit equal to \<open>k\<close>
  in every field is \<open>k\<close>.)
\<close>

theorem commit_creates_one_commit:
  "(fst (has_changes ws) = Inr False \<longrightarrow>
      fst (commit m a co now ws) = Inr None \<and>
      commits (repo (snd (commit m a co now ws))) = commits (repo ws) \<and>
      references (repo (snd (commit m a co now ws))) = references (repo ws) \<and>
      head (snd (commit m a co now ws)) = head ws \<and>
      index (snd (commit m a co now ws)) = index ws)
   \<and> (fst (has_changes ws) = Inr True \<longrightarrow>
      (\<exists>k b. fst (commit m a co now ws) = Inr (Some k) \<and>
         branch ws = Inr b \<and>
         index ws = Some (commit_tree k) \<and>
         commit_parents k = (case b of None \<Rightarrow> [] | Some bv \<Rightarrow> [branch_commit bv]) \<and>
         commit_message k = m \<and>
         commits (repo (snd (commit m a co now ws))) = insert k (commits (repo ws)) \<and>
         references (repo (snd (commit m a co now ws))) =
           (references (repo ws))(head ws \<mapsto> OCommit k) \<and>
         head (snd (commit m a co now ws)) = head ws \<and>
         index (snd (commit m a co now ws)) = index ws))"
proof (intro conjI impI)
  assume clean: "fst (has_changes ws) = Inr False"
  have eq: "commit m a co now ws = (Inr None, snd (has_changes ws))"
    using clean by (rule commit_clean)
  show "fst (commit m a co now ws) = Inr None" by (simp add: eq)
  show "commits (repo (snd (commit m a co now ws))) = commits (repo ws)"
    by (simp add: eq has_changes_commits)
  show "references (repo (snd (commit m a co now ws))) = references (repo ws)"
    by (simp add: eq has_changes_fields)
  show "head (snd (commit m a co now ws)) = head ws" by (simp add: eq has_changes_fields)
  show "index (snd (commit m a co now ws)) = index ws" by (simp add: eq has_changes_fields)
next
  assume dirty: "fst (has_changes ws) = Inr True"
  then obtain b idx where b: "branch ws = Inr b" and idx: "index ws = Some idx"
    using has_changes_returns by blast
  define k where "k = new_commit m a co now ws b idx"
  have eq: "commit m a co now ws =
      (Inr (Some k),
       (snd (has_changes ws))\<lparr>repo := (repo (snd (has_changes ws)))
          \<lparr>objects := insert (OCommit k) (objects (repo (snd (has_changes ws)))),
           references := (references (repo (snd (has_changes ws))))(head ws \<mapsto> OCommit k)\<rparr>\<rparr>)"
    using commit_dirty [OF dirty b idx, of m a co now] by (simp add: Let_def k_def)
  have k: "commit_tree k = idx" "commit_message k = m"
    "commit_parents k = (case b of None \<Rightarrow> [] | Some bv \<Rightarrow> [branch_commit bv])"
    by (simp_all add: k_def new_commit_def Let_def)
  have cs: "commits (repo (snd (commit m a co now ws))) = insert k (commits (repo ws))"
    using has_changes_commits [of ws] by (auto simp: eq commits_def)
  show "\<exists>k b. fst (commit m a co now ws) = Inr (Some k) \<and>
         branch ws = Inr b \<and>
         index ws = Some (commit_tree k) \<and>
         commit_parents k = (case b of None \<Rightarrow> [] | Some bv \<Rightarrow> [branch_commit bv]) \<and>
         commit_message k = m \<and>
         commits (repo (snd (commit m a co now ws))) = insert k (commits (repo ws)) \<and>
         references (repo (snd (commit m a co now ws))) =
           (references (repo ws))(head ws \<mapsto> OCommit k) \<and>
         head (snd (commit m a co now ws)) = head ws \<and>
         index (snd (commit m a co now ws)) = index ws"
    using b idx k cs by (intro exI [of _ k] exI [of _ b]) (simp add: eq has_changes_fields)
qed

theorem commit_creates_one_commit_witness:
  "fst (has_changes ex_ws) = Inr False \<and>
   fst (commit ''msg'' None None 7 ex_ws) = Inr None \<and>
   references (repo (snd (commit ''msg'' None None 7 ex_ws))) = references ex_repo \<and>
   fst (has_changes ex_dirty_ws) = Inr True \<and>
   (\<exists>k. fst (commit ''msg'' None None 7 ex_dirty_ws) = Inr (Some k) \<and>
        commit_tree k = ex_tree2 \<and> commit_parents k = [ex_commit] \<and>
        references (repo (snd (commit ''msg'' None None 7 ex_dirty_ws))) ''refs/heads/master''
          = Some (OCommit k))"
proof -
  have "fst (commit ''msg'' None None 7 ex_ws) = Inr None \<and>
        references (repo (snd (commit ''msg'' None None 7 ex_ws))) = references ex_repo"
    using commit_creates_one_commit [of ex_ws "''msg''" None None 7] ex_has_changes(1)
    by (simp add: ex_fields)
  moreover have "\<exists>k. fst (commit ''msg'' None None 7 ex_dirty_ws) = Inr (Some k) \<and>
        commit_tree k = ex_tree2 \<and> commit_parents k = [ex_commit] \<and>
        references (repo (snd (commit ''msg'' None None 7 ex_dirty_ws))) ''refs/heads/master''
          = Some (OCommit k)"
    using commit_creates_one_commit [of ex_dirty_ws "''msg''" None None 7] ex_has_changes(2)
    by (auto simp: ex_branch ex_fields)
  ultimately show ?thesis using ex_has_changes by simp
qed


text \<open>
  C5. \<^verbatim>\<open>commit_on_success\<close>, as a \<^verbatim>\<open>with\<close> statement around a block. When
  \<^verbatim>\<open>has_changes()\<close> is true on entry the statement raises
  \<^verbatim>\<open>RepositoryError\<close> and the outcome does not depend on the block, which has not
  run. When it is false and the block ends normally, \<^verbatim>\<open>commit\<close> runs with the
  message, author and committer given, on the state the block left. When it is false and
  the block raises, the exception leaves the statement as it is and the state is the one
  the block left: no commit has run and the index keeps the block's changes.
\<close>

theorem commit_on_success_transaction:
  "(fst (has_changes ws) = Inr True \<longrightarrow>
      commit_on_success m a co now block ws =
        (Inl (RepositoryError dirty_msg), snd (has_changes ws)))
   \<and> (fst (has_changes ws) = Inr False \<and> fst (block (snd (has_changes ws))) = Inr v \<longrightarrow>
      commit_on_success m a co now block ws =
        (case commit m a co now (snd (block (snd (has_changes ws)))) of
           (Inl e, ws3) \<Rightarrow> (Inl e, ws3)
         | (Inr _, ws3) \<Rightarrow> (Inr v, ws3)))
   \<and> (fst (has_changes ws) = Inr False \<and> fst (block (snd (has_changes ws))) = Inl e \<longrightarrow>
      commit_on_success m a co now block ws = (Inl e, snd (block (snd (has_changes ws)))))"
proof (intro conjI impI)
  assume "fst (has_changes ws) = Inr True"
  then have "fst (commit_on_success_before ws) = Inl (RepositoryError dirty_msg)"
    by (simp add: commit_on_success_before_eq)
  then show "commit_on_success m a co now block ws =
        (Inl (RepositoryError dirty_msg), snd (has_changes ws))"
    unfolding commit_on_success_def
    by (simp add: contextmanager_before_raises) (simp add: commit_on_success_before_eq)
next
  assume h: "fst (has_changes ws) = Inr False \<and> fst (block (snd (has_changes ws))) = Inr v"
  then have b: "fst (commit_on_success_before ws) = Inr ()"
    "snd (commit_on_success_before ws) = snd (has_changes ws)"
    by (simp_all add: commit_on_success_before_eq)
  show "commit_on_success m a co now block ws =
        (case commit m a co now (snd (block (snd (has_changes ws)))) of
           (Inl e, ws3) \<Rightarrow> (Inl e, ws3)
         | (Inr _, ws3) \<Rightarrow> (Inr v, ws3))"
    unfolding commit_on_success_def
    using contextmanager_block_returns [of commit_on_success_before ws "()" block v] b h
    by simp
next
  assume h: "fst (has_changes ws) = Inr False \<and> fst (block (snd (has_changes ws))) = Inl e"
  then have b: "fst (commit_on_success_before ws) = Inr ()"
    "snd (commit_on_success_before ws) = snd (has_changes ws)"
    by (simp_all add: commit_on_success_before_eq)
  show "commit_on_success m a co now block ws = (Inl e, snd (block (snd (has_changes ws))))"
    unfolding commit_on_success_def
    using contextmanager_block_raises [of commit_on_success_before ws "()" block e] b h
    by simp
qed

theorem commit_on_success_transaction_witness:
  "fst (has_changes ex_dirty_ws) = Inr True \<and>
   commit_on_success ''msg'' None None 7 ex_block_edits ex_dirty_ws =
     (Inl (RepositoryError dirty_msg), ex_dirty_ws) \<and>
   fst (has_changes ex_ws) = Inr False \<and>
   fst (ex_block_edits ex_ws) = Inr () \<and>
   fst (commit_on_success ''msg'' None None 7 ex_block_edits ex_ws) = Inr () \<and>
   (\<exists>k. references (repo (snd (commit_on_success ''msg'' None None 7 ex_block_edits ex_ws)))
          ''refs/heads/master'' = Some (OCommit k)
      \<and> commit_tree k = ex_tree2 \<and> commit_parents k = [ex_commit]) \<and>
   fst (ex_block_edits_raises ex_ws) = Inl (Raised ''boom'') \<and>
   commit_on_success ''msg'' None None 7 ex_block_edits_raises ex_ws =
     (Inl (Raised ''boom''), ex_dirty_ws)"
proof -
  have e: "snd (ex_block_edits ex_ws) = ex_dirty_ws" "fst (ex_block_edits ex_ws) = Inr ()"
    "snd (ex_block_edits_raises ex_ws) = ex_dirty_ws"
    "fst (ex_block_edits_raises ex_ws) = Inl (Raised ''boom'')"
    by (simp_all add: ex_block_edits_def ex_block_edits_raises_def ex_dirty_ws_def)
  have 1: "commit_on_success ''msg'' None None 7 ex_block_edits ex_dirty_ws =
     (Inl (RepositoryError dirty_msg), ex_dirty_ws)"
    using commit_on_success_transaction [of ex_dirty_ws "''msg''" None None 7 ex_block_edits]
      ex_has_changes(2) by (simp add: ex_has_changes_state)
  have 3: "commit_on_success ''msg'' None None 7 ex_block_edits_raises ex_ws =
     (Inl (Raised ''boom''), ex_dirty_ws)"
    using commit_on_success_transaction [of ex_ws "''msg''" None None 7 ex_block_edits_raises _ "Raised ''boom''"]
      ex_has_changes(1) by (simp add: ex_has_changes_state e)
  have 2: "commit_on_success ''msg'' None None 7 ex_block_edits ex_ws =
        (case commit ''msg'' None None 7 ex_dirty_ws of
           (Inl e, ws3) \<Rightarrow> (Inl e, ws3)
         | (Inr _, ws3) \<Rightarrow> (Inr (), ws3))"
    using commit_on_success_transaction [of ex_ws "''msg''" None None 7 ex_block_edits "()"]
      ex_has_changes(1) by (simp add: ex_has_changes_state e)
  have c: "commit ''msg'' None None 7 ex_dirty_ws =
     (let k = new_commit ''msg'' None None 7 ex_dirty_ws
                (Some \<lparr>branch_ref = Reference ''refs/heads/master'' (OCommit ex_commit),
                   branch_commit = ex_commit, branch_oid = OCommit ex_commit, branch_tree = ex_tree\<rparr>) ex_tree2
      in (Inr (Some k), ex_dirty_ws\<lparr>repo := ex_repo
          \<lparr>objects := insert (OCommit k) (objects ex_repo),
           references := (references ex_repo)(''refs/heads/master'' \<mapsto> OCommit k)\<rparr>\<rparr>))"
    using commit_dirty [OF ex_has_changes(2), of _ ex_tree2 "''msg''" None None 7]
    by (simp add: ex_branch ex_fields ex_has_changes_state)
  have s2: "fst (commit_on_success ''msg'' None None 7 ex_block_edits ex_ws) = Inr () \<and>
   (\<exists>k. references (repo (snd (commit_on_success ''msg'' None None 7 ex_block_edits ex_ws)))
          ''refs/heads/master'' = Some (OCommit k)
      \<and> commit_tree k = ex_tree2 \<and> commit_parents k = [ex_commit])"
    by (simp add: 2 c Let_def new_commit_def)
  show ?thesis using 1 s2 3 e ex_has_changes by simp
qed

text \<open>
  C6. Construction has three cases. Where there is no store at the path it fails with
  \<^verbatim>\<open>RepositoryNotFound\<close>. Where the head names a reference that resolves to a branch,
  the workspace is on that head and its index is the branch's tree. Where the head names
  no reference, the workspace is on that head, its index is the empty tree, and the empty
  tree has been written to the store.
\<close>

theorem Workspace_init_three_cases:
  "(fs p = None \<longrightarrow> Workspace_init cfg fs p h = Inl RepositoryNotFound)
   \<and> (fs p = Some r \<and> Branch_init r h = Inr b \<longrightarrow>
        Workspace_init cfg fs p h =
          Inr \<lparr>config = cfg, repo = r, head = h, index = Some (branch_tree b)\<rparr>)
   \<and> (fs p = Some r \<and> lookup_reference r h = Inl KeyError \<longrightarrow>
        Workspace_init cfg fs p h =
          Inr \<lparr>config = cfg, repo = r\<lparr>objects := insert (ONode (Tree [])) (objects r)\<rparr>,
               head = h, index = Some []\<rparr>)"
proof (intro conjI impI)
  assume "fs p = None"
  then show "Workspace_init cfg fs p h = Inl RepositoryNotFound"
    by (rule Workspace_init_not_found)
next
  assume a: "fs p = Some r \<and> Branch_init r h = Inr b"
  then obtain c where "references r h = Some (OCommit c)" "branch_tree b = commit_tree c"
    using Branch_init_returns by blast
  with a show "Workspace_init cfg fs p h =
          Inr \<lparr>config = cfg, repo = r, head = h, index = Some (branch_tree b)\<rparr>"
    by (simp add: Workspace_init_branch)
next
  assume a: "fs p = Some r \<and> lookup_reference r h = Inl KeyError"
  then have "references r h = None"
    by (simp add: lookup_reference_def split: option.splits)
  with a show "Workspace_init cfg fs p h =
          Inr \<lparr>config = cfg, repo = r\<lparr>objects := insert (ONode (Tree [])) (objects r)\<rparr>,
               head = h, index = Some []\<rparr>"
    by (simp add: Workspace_init_unborn)
qed

theorem Workspace_init_three_cases_witness:
  "ex_fs ''/srv/none'' = None \<and>
   Workspace_init ex_cfg ex_fs ''/srv/none'' ''refs/heads/master'' = Inl RepositoryNotFound \<and>
   ex_fs ''/srv/repo'' = Some ex_repo \<and>
   Workspace_init ex_cfg ex_fs ''/srv/repo'' ''refs/heads/master'' = Inr ex_ws \<and>
   ex_fs ''/srv/new'' = Some ex_empty_repo \<and>
   lookup_reference ex_empty_repo ''refs/heads/master'' = Inl KeyError \<and>
   Workspace_init ex_cfg ex_fs ''/srv/new'' ''refs/heads/master'' =
     Inr (ex_unborn_ws\<lparr>repo := \<lparr>objects = {ONode (Tree [])}, references = Map.empty\<rparr>\<rparr>)"
proof -
  have b: "Branch_init ex_repo ''refs/heads/master'' =
      Inr \<lparr>branch_ref = Reference ''refs/heads/master'' (OCommit ex_commit),
           branch_commit = ex_commit, branch_oid = OCommit ex_commit, branch_tree = ex_tree\<rparr>"
    by (simp add: Branch_init_cases ex_refs ex_commit_def)
  have k: "lookup_reference ex_empty_repo ''refs/heads/master'' = Inl KeyError"
    by (simp add: lookup_reference_def ex_refs)
  have 1: "Workspace_init ex_cfg ex_fs ''/srv/none'' ''refs/heads/master'' = Inl RepositoryNotFound"
    using Workspace_init_three_cases [of ex_fs "''/srv/none''" ex_cfg "''refs/heads/master''"]
      ex_fs_at by simp
  have 2: "Workspace_init ex_cfg ex_fs ''/srv/repo'' ''refs/heads/master'' = Inr ex_ws"
    using Workspace_init_three_cases [of ex_fs "''/srv/repo''" ex_cfg "''refs/heads/master''" ex_repo]
      ex_fs_at b by (simp add: ex_ws_def)
  have 3: "Workspace_init ex_cfg ex_fs ''/srv/new'' ''refs/heads/master'' =
     Inr (ex_unborn_ws\<lparr>repo := \<lparr>objects = {ONode (Tree [])}, references = Map.empty\<rparr>\<rparr>)"
    using Workspace_init_three_cases [of ex_fs "''/srv/new''" ex_cfg "''refs/heads/master''" ex_empty_repo]
      ex_fs_at k by (simp add: ex_unborn_ws_def ex_empty_repo_def)
  show ?thesis using 1 2 3 k ex_fs_at by simp
qed

text \<open>
  C9. \<^verbatim>\<open>has_changes()\<close> is true exactly when the diff between the branch's tree (an
  empty tree when the head does not resolve) and the index has a delta, and that diff is
  what \<^verbatim>\<open>diff()\<close> returns. It is false in the workspace that construction against an
  existing branch returns, and false in the state that a \<^verbatim>\<open>commit\<close> which created a
  commit leaves.
\<close>

theorem has_changes_is_diff_nonempty:
  "(branch ws = Inr b \<and> index ws = Some idx \<longrightarrow>
      fst (diff ws) = Inr (diff_to_tree (base_tree b) idx) \<and>
      fst (has_changes ws) = Inr (diff_to_tree (base_tree b) idx \<noteq> []))
   \<and> (fs p = Some r \<and> Branch_init r h = Inr bv \<longrightarrow>
        (\<exists>ws'. Workspace_init cfg fs p h = Inr ws' \<and> fst (has_changes ws') = Inr False))
   \<and> (fst (commit m a co now ws) = Inr (Some k) \<longrightarrow>
        fst (has_changes (snd (commit m a co now ws))) = Inr False)"
proof (intro conjI impI)
  assume a: "branch ws = Inr b \<and> index ws = Some idx"
  then show "fst (diff ws) = Inr (diff_to_tree (base_tree b) idx)"
    by (cases b) (simp_all add: diff_branch diff_unborn base_tree_def)
  from a show "fst (has_changes ws) = Inr (diff_to_tree (base_tree b) idx \<noteq> [])"
    by (simp add: has_changes_result)
next
  assume a: "fs p = Some r \<and> Branch_init r h = Inr bv"
  then obtain c where c: "references r h = Some (OCommit c)"
    using Branch_init_returns by blast
  let ?ws = "\<lparr>config = cfg, repo = r, head = h, index = Some (commit_tree c)\<rparr>"
  have "Workspace_init cfg fs p h = Inr ?ws"
    using a c by (simp add: Workspace_init_branch)
  moreover have "fst (has_changes ?ws) = Inr False"
    using c by (simp add: has_changes_eq branch_cases base_tree_def diff_to_tree_same)
  ultimately show "\<exists>ws'. Workspace_init cfg fs p h = Inr ws' \<and> fst (has_changes ws') = Inr False"
    by blast
next
  assume a: "fst (commit m a co now ws) = Inr (Some k)"
  have "fst (has_changes ws) = Inr True"
  proof (cases "has_changes ws")
    case (Pair res ws1)
    with a show ?thesis
      by (cases res) (auto simp: commit_def split: bool.splits)
  qed
  then obtain b idx where b: "branch ws = Inr b" and idx: "index ws = Some idx"
    and d: "fst (has_changes ws) = Inr True"
    using has_changes_returns by blast
  let ?k = "new_commit m a co now ws b idx"
  let ?ws1 = "snd (has_changes ws)"
  let ?ws2 = "?ws1\<lparr>repo := (repo ?ws1)\<lparr>objects := insert (OCommit ?k) (objects (repo ?ws1)),
                     references := (references (repo ?ws1))(head ws \<mapsto> OCommit ?k)\<rparr>\<rparr>"
  have eq: "snd (commit m a co now ws) = ?ws2"
    using commit_dirty [OF d b idx, of m a co now] by (simp add: Let_def)
  have "branch ?ws2 = Inr (Some \<lparr>branch_ref = Reference (head ws) (OCommit ?k),
      branch_commit = ?k, branch_oid = OCommit ?k, branch_tree = idx\<rparr>)"
    by (simp add: branch_cases has_changes_fields new_commit_def Let_def)
  moreover have "index ?ws2 = Some idx"
    by (simp add: has_changes_fields idx)
  ultimately have "fst (has_changes ?ws2) = Inr False"
    by (simp add: has_changes_eq base_tree_def diff_to_tree_same)
  then show "fst (has_changes (snd (commit m a co now ws))) = Inr False"
    by (simp add: eq)
qed


theorem has_changes_is_diff_nonempty_witness:
  "branch ex_dirty_ws = Inr (Some ex_master) \<and> index ex_dirty_ws = Some ex_tree2 \<and>
   fst (diff ex_dirty_ws) = Inr [[''a'']] \<and>
   fst (has_changes ex_dirty_ws) = Inr True \<and>
   ex_fs ''/srv/repo'' = Some ex_repo \<and>
   Branch_init ex_repo ''refs/heads/master'' = Inr ex_master \<and>
   (\<exists>ws'. Workspace_init ex_cfg ex_fs ''/srv/repo'' ''refs/heads/master'' = Inr ws' \<and>
      fst (has_changes ws') = Inr False) \<and>
   (\<exists>k. fst (commit ''msg'' None None 7 ex_dirty_ws) = Inr (Some k)) \<and>
   fst (has_changes (snd (commit ''msg'' None None 7 ex_dirty_ws))) = Inr False"
proof -
  have b: "branch ex_dirty_ws = Inr (Some ex_master)" "index ex_dirty_ws = Some ex_tree2"
    by (simp_all add: ex_branch ex_fields ex_master_def)
  have i: "Branch_init ex_repo ''refs/heads/master'' = Inr ex_master"
    by (simp add: Branch_init_cases ex_refs ex_commit_def ex_master_def)
  have k: "fst (commit ''msg'' None None 7 ex_dirty_ws) =
      Inr (Some (new_commit ''msg'' None None 7 ex_dirty_ws (Some ex_master) ex_tree2))"
    using commit_dirty [OF ex_has_changes(2) b, of "''msg''" None None 7]
    by (simp add: Let_def)
  have 1: "fst (diff ex_dirty_ws) = Inr [[''a'']] \<and> fst (has_changes ex_dirty_ws) = Inr True"
    using has_changes_is_diff_nonempty [of ex_dirty_ws "Some ex_master" ex_tree2] b
    by (simp add: base_tree_def ex_master_def ex_diffs)
  have 2: "\<exists>ws'. Workspace_init ex_cfg ex_fs ''/srv/repo'' ''refs/heads/master'' = Inr ws' \<and>
      fst (has_changes ws') = Inr False"
    using has_changes_is_diff_nonempty [of _ _ _ ex_fs "''/srv/repo''" ex_repo
        "''refs/heads/master''" ex_master ex_cfg] ex_fs_at i
    by simp
  have 3: "fst (has_changes (snd (commit ''msg'' None None 7 ex_dirty_ws))) = Inr False"
    using has_changes_is_diff_nonempty [of ex_dirty_ws _ _ _ _ _ _ _ _ "''msg''" None None 7] k
    by simp
  show ?thesis using b i k 1 2 3 ex_fs_at by simp
qed

text \<open>
  C10. Where the head names no reference, the property \<^verbatim>\<open>branch\<close> is \<^verbatim>\<open>None\<close>
  and no error; \<^verbatim>\<open>diff()\<close> then writes an empty tree and compares it with the index;
  and \<^verbatim>\<open>commit\<close>, when that diff has a delta, returns a commit of the index that has
  no parent and makes the head point at it.
\<close>

theorem unborn_branch_is_None:
  "lookup_reference (repo ws) (head ws) = Inl KeyError \<longrightarrow>
     branch ws = Inr None \<and>
     (index ws = Some idx \<longrightarrow>
        diff ws = (Inr (diff_to_tree [] idx), wrote_empty_tree ws) \<and>
        (diff_to_tree [] idx \<noteq> [] \<longrightarrow>
           (\<exists>k. fst (commit m a co now ws) = Inr (Some k) \<and>
                commit_parents k = [] \<and> commit_tree k = idx \<and>
                references (repo (snd (commit m a co now ws))) (head ws) = Some (OCommit k))))"
proof (intro impI conjI)
  assume a: "lookup_reference (repo ws) (head ws) = Inl KeyError"
  then show b: "branch ws = Inr None"
    by (simp add: branch_def Branch_init_def)
  assume idx: "index ws = Some idx"
  show "diff ws = (Inr (diff_to_tree [] idx), wrote_empty_tree ws)"
    using b idx by (rule diff_unborn)
  assume d: "diff_to_tree [] idx \<noteq> []"
  have hc: "fst (has_changes ws) = Inr True"
    using b idx d by (simp add: has_changes_eq base_tree_def)
  let ?k = "new_commit m a co now ws None idx"
  have "commit_parents ?k = []" "commit_tree ?k = idx"
    by (simp_all add: new_commit_def Let_def)
  moreover have "fst (commit m a co now ws) = Inr (Some ?k)"
    "references (repo (snd (commit m a co now ws))) (head ws) = Some (OCommit ?k)"
    using commit_dirty [OF hc b idx, of m a co now] by (simp_all add: Let_def)
  ultimately show "\<exists>k. fst (commit m a co now ws) = Inr (Some k) \<and>
                commit_parents k = [] \<and> commit_tree k = idx \<and>
                references (repo (snd (commit m a co now ws))) (head ws) = Some (OCommit k)"
    by blast
qed

theorem unborn_branch_is_None_witness:
  "lookup_reference (repo ex_unborn_ws) (head ex_unborn_ws) = Inl KeyError \<and>
   branch ex_unborn_ws = Inr None \<and>
   index (ex_unborn_ws\<lparr>index := Some ex_tree\<rparr>) = Some ex_tree \<and>
   diff (ex_unborn_ws\<lparr>index := Some ex_tree\<rparr>) =
     (Inr [[''a'']], wrote_empty_tree (ex_unborn_ws\<lparr>index := Some ex_tree\<rparr>)) \<and>
   diff_to_tree [] ex_tree \<noteq> [] \<and>
   (\<exists>k. fst (commit ''msg'' None None 7 (ex_unborn_ws\<lparr>index := Some ex_tree\<rparr>)) = Inr (Some k) \<and>
        commit_parents k = [] \<and> commit_tree k = ex_tree)"
proof -
  let ?ws = "ex_unborn_ws\<lparr>index := Some ex_tree\<rparr>"
  have l: "lookup_reference (repo ex_unborn_ws) (head ex_unborn_ws) = Inl KeyError"
    "lookup_reference (repo ?ws) (head ?ws) = Inl KeyError"
    by (simp_all add: lookup_reference_def ex_fields ex_refs)
  have 1: "branch ex_unborn_ws = Inr None"
    using unborn_branch_is_None [of ex_unborn_ws] l by simp
  have 2: "diff ?ws = (Inr [[''a'']], wrote_empty_tree ?ws) \<and>
     (\<exists>k. fst (commit ''msg'' None None 7 ?ws) = Inr (Some k) \<and>
        commit_parents k = [] \<and> commit_tree k = ex_tree)"
    using unborn_branch_is_None [of ?ws ex_tree "''msg''" None None 7] l
    by (auto simp: ex_diffs)
  show ?thesis using l 1 2 by (simp add: ex_diffs)
qed

text \<open>
  C3. A workspace is constructed on the unborn head \<^verbatim>\<open>refs/heads/new\<close>, so its index
  is the empty tree, and \<^verbatim>\<open>create_branch\<close> then puts that head on the commit of
  master, whose tree has a file. \<^verbatim>\<open>has_changes()\<close> is now true, and yet
  \<^verbatim>\<open>set_branch\<close> raises nothing: it moves the head to the other branch and replaces
  the index with that branch's tree. The guard of \<^verbatim>\<open>update_index\<close> tests the truth
  value of the index first, and an empty tree is false.
\<close>

theorem set_branch_with_empty_index:
  "Workspace_init ex_cfg ex_fs ''/srv/repo'' ''refs/heads/new'' = Inr ex_fresh_ws \<and>
   create_branch ''new'' (Some ''refs/heads/master'') ex_fresh_ws = (Inr (), ex_branched_ws) \<and>
   fst (has_changes ex_branched_ws) = Inr True \<and>
   set_branch ''dev'' ex_branched_ws =
     (Inr (), ex_branched_ws\<lparr>head := ''refs/heads/dev'', index := Some ex_tree2\<rparr>)"
proof -
  have r: "references (repo ex_fresh_ws) = references ex_repo"
    "head ex_fresh_ws = ''refs/heads/new''" "index ex_fresh_ws = Some []"
    "head ex_branched_ws = ''refs/heads/new''" "index ex_branched_ws = Some []"
    "references (repo ex_branched_ws) = (references ex_repo)(''refs/heads/new'' \<mapsto> OCommit ex_commit)"
    by (simp_all add: ex_fresh_ws_def ex_branched_ws_def)
  have n: "references ex_repo ''refs/heads/new'' = None"
    by (simp add: ex_repo_def)
  have 1: "Workspace_init ex_cfg ex_fs ''/srv/repo'' ''refs/heads/new'' = Inr ex_fresh_ws"
    using Workspace_init_unborn [of ex_fs "''/srv/repo''" ex_repo "''refs/heads/new''" ex_cfg]
      ex_fs_at(1) n by (simp add: ex_fresh_ws_def)
  have 2: "create_branch ''new'' (Some ''refs/heads/master'') ex_fresh_ws = (Inr (), ex_branched_ws)"
    by (simp add: create_branch_def Let_def lookup_reference_def r ex_refs n ref_type_def
          GIT_REF_OID_def GIT_OBJ_COMMIT_def create_reference_def ex_branched_ws_def)
  have 3: "fst (has_changes ex_branched_ws) = Inr True"
    by (simp add: has_changes_eq branch_cases r base_tree_def ex_diffs)
       (simp add: ex_commit_def ex_diffs)
  have "update_index ''refs/heads/dev'' ex_branched_ws =
     (Inr (), ex_branched_ws\<lparr>head := ''refs/heads/dev'', index := Some ex_tree2\<rparr>)"
    by (simp add: update_index_def truthy_def r lookup_reference_def ex_refs
          branch_cases ex_commit2_def)
  then have 4: "set_branch ''dev'' ex_branched_ws =
     (Inr (), ex_branched_ws\<lparr>head := ''refs/heads/dev'', index := Some ex_tree2\<rparr>)"
    by (simp add: set_branch_eq r ex_refs)
  show ?thesis using 1 2 3 4 by simp
qed

text \<open>
  C7, as amended. \<^verbatim>\<open>create_branch\<close> takes the start point given, and the head when
  none or an empty one is given. Where that name is no reference it raises
  \<^verbatim>\<open>RepositoryError\<close> and changes nothing. Where it is a reference at a commit and
  the new branch name is free, the new reference is created at that commit, nothing else
  of the workspace changes, and the new name resolves to a branch on that commit. Where
  it is a reference at a commit and the new branch name is taken, the store's refusal
  leaves the call and nothing changes.
\<close>

theorem create_branch_at_start_point:
  "sp = (case start_point of None \<Rightarrow> head ws | Some s \<Rightarrow> if s = [] then head ws else s) \<longrightarrow>
   (lookup_reference (repo ws) sp = Inl KeyError \<longrightarrow>
      create_branch name start_point ws = (Inl (RepositoryError (not_found_msg sp)), ws))
   \<and> (references (repo ws) sp = Some (OCommit c) \<and>
       references (repo ws) (''refs/heads/'' @ name) = None \<longrightarrow>
      (\<exists>ws' b. create_branch name start_point ws = (Inr (), ws') \<and>
         references (repo ws') = (references (repo ws))(''refs/heads/'' @ name \<mapsto> OCommit c) \<and>
         objects (repo ws') = objects (repo ws) \<and>
         head ws' = head ws \<and> index ws' = index ws \<and>
         Branch_init (repo ws') (''refs/heads/'' @ name) = Inr b \<and> branch_commit b = c))
   \<and> (references (repo ws) sp = Some (OCommit c) \<and>
       references (repo ws) (''refs/heads/'' @ name) = Some t \<longrightarrow>
      create_branch name start_point ws = (Inl (ValueError ''reference exists''), ws))"
proof (intro impI conjI)
  assume sp: "sp = (case start_point of None \<Rightarrow> head ws | Some s \<Rightarrow> if s = [] then head ws else s)"
  {
    assume "lookup_reference (repo ws) sp = Inl KeyError"
    then show "create_branch name start_point ws = (Inl (RepositoryError (not_found_msg sp)), ws)"
      unfolding create_branch_def sp [symmetric] by (simp add: Let_def)
  }
  {
    assume a: "references (repo ws) sp = Some (OCommit c) \<and>
       references (repo ws) (''refs/heads/'' @ name) = None"
    let ?ws' = "ws\<lparr>repo := (repo ws)\<lparr>references :=
        (references (repo ws))(''refs/heads/'' @ name \<mapsto> OCommit c)\<rparr>\<rparr>"
    let ?b = "\<lparr>branch_ref = Reference (''refs/heads/'' @ name) (OCommit c), branch_commit = c,
               branch_oid = OCommit c, branch_tree = commit_tree c\<rparr>"
    have "create_branch name start_point ws = (Inr (), ?ws')"
      unfolding create_branch_def sp [symmetric] using a
      by (simp add: Let_def lookup_reference_def ref_type_def GIT_REF_OID_def GIT_OBJ_COMMIT_def
            create_reference_def)
    moreover have "Branch_init (repo ?ws') (''refs/heads/'' @ name) = Inr ?b"
      by (simp add: Branch_init_cases)
    ultimately show "\<exists>ws' b. create_branch name start_point ws = (Inr (), ws') \<and>
         references (repo ws') = (references (repo ws))(''refs/heads/'' @ name \<mapsto> OCommit c) \<and>
         objects (repo ws') = objects (repo ws) \<and>
         head ws' = head ws \<and> index ws' = index ws \<and>
         Branch_init (repo ws') (''refs/heads/'' @ name) = Inr b \<and> branch_commit b = c"
      by (intro exI [of _ ?ws'] exI [of _ ?b]) simp
  }
  {
    assume a: "references (repo ws) sp = Some (OCommit c) \<and>
       references (repo ws) (''refs/heads/'' @ name) = Some t"
    show "create_branch name start_point ws = (Inl (ValueError ''reference exists''), ws)"
      unfolding create_branch_def sp [symmetric] using a
      by (simp add: Let_def lookup_reference_def ref_type_def GIT_REF_OID_def GIT_OBJ_COMMIT_def
            create_reference_def)
  }
qed

theorem create_branch_at_start_point_witness:
  "lookup_reference (repo ex_ws) ''refs/heads/topic'' = Inl KeyError \<and>
   create_branch ''new'' (Some ''refs/heads/topic'') ex_ws =
     (Inl (RepositoryError (not_found_msg ''refs/heads/topic'')), ex_ws) \<and>
   references (repo ex_ws) (head ex_ws) = Some (OCommit ex_commit) \<and>
   references (repo ex_ws) ''refs/heads/topic'' = None \<and>
   (\<exists>ws' b. create_branch ''topic'' None ex_ws = (Inr (), ws') \<and>
      Branch_init (repo ws') ''refs/heads/topic'' = Inr b \<and> branch_commit b = ex_commit) \<and>
   references (repo ex_ws) ''refs/heads/dev'' = Some (OCommit ex_commit2) \<and>
   create_branch ''dev'' (Some []) ex_ws = (Inl (ValueError ''reference exists''), ex_ws)"
proof -
  have l: "lookup_reference (repo ex_ws) ''refs/heads/topic'' = Inl KeyError"
    by (simp add: lookup_reference_def ex_fields ex_refs)
  have r: "references (repo ex_ws) (head ex_ws) = Some (OCommit ex_commit)"
    "references (repo ex_ws) ''refs/heads/topic'' = None"
    "references (repo ex_ws) ''refs/heads/dev'' = Some (OCommit ex_commit2)"
    by (simp_all add: ex_fields ex_refs)
  have 1: "create_branch ''new'' (Some ''refs/heads/topic'') ex_ws =
     (Inl (RepositoryError (not_found_msg ''refs/heads/topic'')), ex_ws)"
    using create_branch_at_start_point [where sp = "''refs/heads/topic''"
        and start_point = "Some ''refs/heads/topic''" and ws = ex_ws and name = "''new''"] l by simp
  have 2: "\<exists>ws' b. create_branch ''topic'' None ex_ws = (Inr (), ws') \<and>
      Branch_init (repo ws') ''refs/heads/topic'' = Inr b \<and> branch_commit b = ex_commit"
    using create_branch_at_start_point [where sp = "head ex_ws" and start_point = None
        and ws = ex_ws and c = ex_commit and name = "''topic''"] r
    by auto
  have 3: "create_branch ''dev'' (Some []) ex_ws = (Inl (ValueError ''reference exists''), ex_ws)"
    using create_branch_at_start_point [where sp = "head ex_ws" and start_point = "Some []"
        and ws = ex_ws and c = ex_commit and name = "''dev''" and t = "OCommit ex_commit2"] r by simp
  show ?thesis using l r 1 2 3 by simp
qed

text \<open>
  C7, as stated, fails. The start point resolves to a reference at a commit, so the call
  should create the branch there; the name is taken, the call raises, and the name still
  resolves to the other commit. And a start point that is a lock, a reference at a blob,
  passes the type test: the branch is created at the blob and does not resolve to a
  branch.
\<close>

theorem create_branch_counterexample:
  "Branch_init (repo ex_ws) ''refs/heads/master'' = Inr ex_master \<and>
   branch_commit ex_master = ex_commit \<and>
   create_branch ''dev'' (Some ''refs/heads/master'') ex_ws =
     (Inl (ValueError ''reference exists''), ex_ws) \<and>
   references (repo ex_ws) ''refs/heads/dev'' = Some (OCommit ex_commit2) \<and>
   ex_commit2 \<noteq> ex_commit \<and>
   references (repo ex_ws) ''refs/locks/job'' = Some (ONode (Blob [])) \<and>
   fst (create_branch ''topic'' (Some ''refs/locks/job'') ex_ws) = Inr () \<and>
   Branch_init (repo (snd (create_branch ''topic'' (Some ''refs/locks/job'') ex_ws)))
     ''refs/heads/topic'' = Inl (AttributeError ''tree'')"
  by (simp add: create_branch_def Let_def lookup_reference_def ref_type_def GIT_REF_OID_def
        GIT_OBJ_COMMIT_def create_reference_def ex_fields ex_refs Branch_init_cases
        ex_master_def)
     (simp add: ex_commit_def ex_commit2_def)



text \<open>
  C2. \<^verbatim>\<open>lock\<close> on a held lock id with a wait of 10 against a timeout of 5: the call
  raises \<^verbatim>\<open>AttributeError\<close> at \<^verbatim>\<open>self.path\<close>, where the message of the timeout is
  formatted, and not \<^verbatim>\<open>LockWaitTimeoutExceeded\<close>; with a wait of 1 it raises
  \<^verbatim>\<open>AttributeError\<close> at \<^verbatim>\<open>time.sleep\<close>. The workspace is unchanged in both runs.
\<close>

theorem lock_timeout_raises_AttributeError:
  "locked ''job'' ex_ws \<and> LOCK_WAIT_TIMEOUT (config ex_ws) = 5 \<and>
   lock [0, 10] ''job'' ex_block_returns ex_ws = Some (Inl (AttributeError ''path''), ex_ws) \<and>
   lock [0, 1] ''job'' ex_block_returns ex_ws = Some (Inl (AttributeError ''sleep''), ex_ws)"
  by (simp add: lock_held ex_locked) (simp add: ex_ws_def ex_cfg_def)

text \<open>
  C8. \<^verbatim>\<open>add_blob\<close> writes a blob of the content and calls \<^verbatim>\<open>add\<close> with the head
  of \<^verbatim>\<open>os.path.split(path)\<close> and the single entry made of the tail, the blob and the
  mode; it returns the blob. For a path with a leaf name (one that does not end in a
  slash), when \<^verbatim>\<open>add_blob\<close> and the \<^verbatim>\<open>commit\<close> after it return, the blob is in the
  store, the index holds the content at the path, and the head resolves to a branch whose
  tree holds exactly the content, with the mode given, at the path.
\<close>

theorem add_blob_commit_roundtrip:
  "add_blob path content mode ws =
     (case add (fst (os_path_split path)) [(snd (os_path_split path), Blob content, mode)]
             (snd (create_blob content ws)) of
        (Inl e, ws2) \<Rightarrow> (Inl e, ws2)
      | (Inr u, ws2) \<Rightarrow> (Inr (fst (create_blob content ws)), ws2))
   \<and> (snd (os_path_split path) \<noteq> [] \<and>
       fst (add_blob path content mode ws) = Inr blob \<and>
       fst (commit m a co now (snd (add_blob path content mode ws))) = Inr res \<longrightarrow>
         blob = Blob content \<and>
         ONode (Blob content) \<in> objects (repo (snd (add_blob path content mode ws))) \<and>
         (\<exists>idx. index (snd (add_blob path content mode ws)) = Some idx \<and>
                tree_file idx (path_segments path) = Some (content, mode)) \<and>
         (\<exists>b. branch (snd (commit m a co now (snd (add_blob path content mode ws)))) =
                Inr (Some b) \<and>
              tree_file (branch_tree b) (path_segments path) = Some (content, mode)))"
proof (intro conjI impI)
  show "add_blob path content mode ws =
     (case add (fst (os_path_split path)) [(snd (os_path_split path), Blob content, mode)]
             (snd (create_blob content ws)) of
        (Inl e, ws2) \<Rightarrow> (Inl e, ws2)
      | (Inr u, ws2) \<Rightarrow> (Inr (fst (create_blob content ws)), ws2))"
    by (simp add: add_blob_eq create_blob_def repo_create_blob_def
          split: prod.splits sum.splits)
next
  assume h: "snd (os_path_split path) \<noteq> [] \<and>
       fst (add_blob path content mode ws) = Inr blob \<and>
       fst (commit m a co now (snd (add_blob path content mode ws))) = Inr res"
  define parent where "parent = fst (os_path_split path)"
  define name where "name = snd (os_path_split path)"
  define ws0 where "ws0 =
    ws\<lparr>repo := (repo ws)\<lparr>objects := insert (ONode (Blob content)) (objects (repo ws))\<rparr>\<rparr>"
  define ws1 where "ws1 = snd (add_blob path content mode ws)"
  have segs: "path_segments path = path_segments parent @ [name]"
    using h by (simp add: parent_def name_def path_segments_split)
  have ab: "add_blob path content mode ws =
     (case add parent [(name, Blob content, mode)] ws0 of
        (Inl e, ws2) \<Rightarrow> (Inl e, ws2)
      | (Inr u, ws2) \<Rightarrow> (Inr (Blob content), ws2))"
    by (simp add: add_blob_eq parent_def name_def ws0_def)
  obtain ra wa where ad: "add parent [(name, Blob content, mode)] ws0 = (ra, wa)"
    by (cases "add parent [(name, Blob content, mode)] ws0")
  have ok: "ra = Inr ()" and bl: "blob = Blob content" and w: "ws1 = wa"
    using h ab ad by (cases ra; simp add: ws1_def)+
  then obtain t' r' where
    bp: "build_path (repo ws0) (path_segments parent) [(name, Blob content, mode)]
           (case index ws0 of None \<Rightarrow> [] | Some idx \<Rightarrow> idx) = Inr (t', r')"
    and wa: "wa = ws0\<lparr>repo := r', index := Some t'\<rparr>"
    using add_returns [of parent "[(name, Blob content, mode)]" ws0 "()"] ad by auto
  have idx: "index ws1 = Some t'" by (simp add: w wa)
  have tf: "tree_file t' (path_segments path) = Some (content, mode)"
    using build_path_tree_file [OF bp] by (simp add: segs)
  have "ONode (Blob content) \<in> objects (repo ws0)" by (simp add: ws0_def)
  then have ob: "ONode (Blob content) \<in> objects (repo ws1)"
    using build_path_store [OF bp] by (auto simp: w wa)
  show "blob = Blob content" by (rule bl)
  show "ONode (Blob content) \<in> objects (repo (snd (add_blob path content mode ws)))"
    using ob by (simp add: ws1_def)
  show "\<exists>idx. index (snd (add_blob path content mode ws)) = Some idx \<and>
                tree_file idx (path_segments path) = Some (content, mode)"
    using idx tf by (simp add: ws1_def)
  have c: "fst (commit m a co now ws1) = Inr res" using h by (simp add: ws1_def)
  have "\<exists>b. branch (snd (commit m a co now ws1)) = Inr (Some b) \<and>
              tree_file (branch_tree b) (path_segments path) = Some (content, mode)"
  proof (cases "has_changes ws1")
    case (Pair hr ws2)
    show ?thesis
    proof (cases hr)
      case (Inl e)
      with Pair c show ?thesis by (simp add: commit_def)
    next
      case (Inr changed)
      then have hc: "fst (has_changes ws1) = Inr changed" using Pair by simp
      show ?thesis
      proof (cases changed)
        case True
        then show ?thesis
          using commit_dirty_branch [of ws1 t' m a co now] hc idx tf by auto
      next
        case False
        then have cl: "fst (has_changes ws1) = Inr False" using hc by simp
        obtain b where b: "branch ws1 = Inr b"
          using cl has_changes_returns by blast
        have "diff_to_tree (base_tree b) t' = []"
          using has_changes_result [OF b idx] cl by simp
        then have "tree_file (base_tree b) (path_segments path) = Some (content, mode)"
          using diff_to_tree_empty tree_file_in_paths [OF tf] tf by metis
        then obtain bv where "b = Some bv"
          "tree_file (branch_tree bv) (path_segments path) = Some (content, mode)"
          by (cases b) (simp_all add: base_tree_def tree_file_empty)
        then show ?thesis
          using b by (simp add: commit_clean [OF cl] has_changes_fields)
      qed
    qed
  qed
  then show "\<exists>b. branch (snd (commit m a co now (snd (add_blob path content mode ws)))) =
                Inr (Some b) \<and>
              tree_file (branch_tree b) (path_segments path) = Some (content, mode)"
    by (simp add: ws1_def)
qed


theorem add_blob_commit_roundtrip_witness:
  "snd (os_path_split ''a/b/c'') \<noteq> [] \<and>
   fst (add_blob ''a/b/c'' ''hello'' GIT_FILEMODE_BLOB ex_unborn_ws) = Inr (Blob ''hello'') \<and>
   (\<exists>res. fst (commit ''msg'' None None 7
              (snd (add_blob ''a/b/c'' ''hello'' GIT_FILEMODE_BLOB ex_unborn_ws))) = Inr res) \<and>
   (\<exists>b. branch (snd (commit ''msg'' None None 7
              (snd (add_blob ''a/b/c'' ''hello'' GIT_FILEMODE_BLOB ex_unborn_ws)))) = Inr (Some b) \<and>
        tree_file (branch_tree b) [''a'', ''b'', ''c''] = Some (''hello'', GIT_FILEMODE_BLOB))"
proof -
  let ?ws1 = "snd (add_blob ''a/b/c'' ''hello'' GIT_FILEMODE_BLOB ex_unborn_ws)"
  have sp: "os_path_split ''a/b/c'' = (''a/b'', ''c'')"
    by (simp add: os_path_split_def Let_def is_slash_def rstrip_slash_def)
  have ps: "path_segments ''a/b'' = [''a'', ''b'']" "path_segments ''a/b/c'' = [''a'', ''b'', ''c'']"
    by (simp_all add: path_segments_def is_slash_def)
  have ab: "fst (add_blob ''a/b/c'' ''hello'' GIT_FILEMODE_BLOB ex_unborn_ws) = Inr (Blob ''hello'')"
    "head ?ws1 = ''refs/heads/master''"
    "references (repo ?ws1) = Map.empty"
    "\<exists>idx. index ?ws1 = Some idx"
    by (simp_all add: add_blob_eq sp add_def ps ex_unborn_ws_def ex_empty_repo_def
          TreeBuilder_write_def tb_insert_def Let_def)
  have "branch ?ws1 = Inr None"
    by (simp add: branch_cases ab)
  then have "\<exists>c. fst (has_changes ?ws1) = Inr c"
    using ab(4) by (auto simp: has_changes_eq)
  then obtain res where res: "fst (commit ''msg'' None None 7 ?ws1) = Inr res"
    using commit_returns by blast
  have ne: "snd (os_path_split ''a/b/c'') \<noteq> []" by (simp add: sp)
  have "\<exists>b. branch (snd (commit ''msg'' None None 7 ?ws1)) = Inr (Some b) \<and>
        tree_file (branch_tree b) (path_segments ''a/b/c'') = Some (''hello'', GIT_FILEMODE_BLOB)"
    using add_blob_commit_roundtrip [of "''a/b/c''" "''hello''" GIT_FILEMODE_BLOB ex_unborn_ws
        "Blob ''hello''" "''msg''" None None 7 res, THEN conjunct2] ne ab(1) res
    by blast
  then have "\<exists>b. branch (snd (commit ''msg'' None None 7 ?ws1)) = Inr (Some b) \<and>
        tree_file (branch_tree b) [''a'', ''b'', ''c''] = Some (''hello'', GIT_FILEMODE_BLOB)"
    by (simp only: ps)
  then show ?thesis using ne ab(1) res by blast
qed

section \<open>Further properties\<close>

text \<open>
  X1. What \<^verbatim>\<open>set_branch\<close> does. A name that is no branch raises
  \<^verbatim>\<open>RepositoryError\<close> and changes nothing. With a true (non-empty) index and
  \<^verbatim>\<open>has_changes()\<close> true it raises \<^verbatim>\<open>RepositoryError\<close> and head, index and
  references stay. With an index that is false (empty), or with \<^verbatim>\<open>has_changes()\<close>
  false, and a target at a commit, the head becomes the target and the index its tree.
\<close>

theorem set_branch_guard:
  "(lookup_reference (repo ws) (''refs/heads/'' @ name) = Inl KeyError \<longrightarrow>
      set_branch name ws = (Inl (RepositoryError (not_found_msg (''refs/heads/'' @ name))), ws))
   \<and> (references (repo ws) (''refs/heads/'' @ name) = Some t \<and>
       truthy (index ws) \<and> fst (has_changes ws) = Inr True \<longrightarrow>
      fst (set_branch name ws) = Inl (RepositoryError pending_msg) \<and>
      head (snd (set_branch name ws)) = head ws \<and>
      index (snd (set_branch name ws)) = index ws \<and>
      references (repo (snd (set_branch name ws))) = references (repo ws))
   \<and> (references (repo ws) (''refs/heads/'' @ name) = Some (OCommit c) \<and>
       (\<not> truthy (index ws) \<or> fst (has_changes ws) = Inr False) \<longrightarrow>
      fst (set_branch name ws) = Inr () \<and>
      head (snd (set_branch name ws)) = ''refs/heads/'' @ name \<and>
      index (snd (set_branch name ws)) = Some (commit_tree c) \<and>
      references (repo (snd (set_branch name ws))) = references (repo ws))"
proof (intro conjI impI)
  assume "lookup_reference (repo ws) (''refs/heads/'' @ name) = Inl KeyError"
  then show "set_branch name ws =
      (Inl (RepositoryError (not_found_msg (''refs/heads/'' @ name))), ws)"
    by (simp add: set_branch_def Let_def)
next
  assume a: "references (repo ws) (''refs/heads/'' @ name) = Some t \<and>
       truthy (index ws) \<and> fst (has_changes ws) = Inr True"
  then have eq: "set_branch name ws = (Inl (RepositoryError pending_msg), snd (has_changes ws))"
    by (simp add: set_branch_eq update_index_pending)
  show "fst (set_branch name ws) = Inl (RepositoryError pending_msg)"
    "head (snd (set_branch name ws)) = head ws"
    "index (snd (set_branch name ws)) = index ws"
    "references (repo (snd (set_branch name ws))) = references (repo ws)"
    by (simp_all add: eq has_changes_fields)
next
  assume a: "references (repo ws) (''refs/heads/'' @ name) = Some (OCommit c) \<and>
       (\<not> truthy (index ws) \<or> fst (has_changes ws) = Inr False)"
  then have eq: "set_branch name ws = update_index (''refs/heads/'' @ name) ws"
    by (simp add: set_branch_eq)
  from a have g: "\<not> truthy (index ws) \<or> fst (has_changes ws) = Inr False"
    and rf: "references (repo ws) (''refs/heads/'' @ name) = Some (OCommit c)" by simp_all
  show "fst (set_branch name ws) = Inr ()"
    "head (snd (set_branch name ws)) = ''refs/heads/'' @ name"
    "index (snd (set_branch name ws)) = Some (commit_tree c)"
    "references (repo (snd (set_branch name ws))) = references (repo ws)"
    unfolding eq using update_index_switch [OF g rf] by simp_all
qed

theorem set_branch_guard_witness:
  "lookup_reference (repo ex_ws) (''refs/heads/'' @ ''topic'') = Inl KeyError \<and>
   set_branch ''topic'' ex_ws =
     (Inl (RepositoryError (not_found_msg (''refs/heads/'' @ ''topic''))), ex_ws) \<and>
   truthy (index ex_dirty_ws) \<and> fst (has_changes ex_dirty_ws) = Inr True \<and>
   fst (set_branch ''dev'' ex_dirty_ws) = Inl (RepositoryError pending_msg) \<and>
   index (snd (set_branch ''dev'' ex_dirty_ws)) = Some ex_tree2 \<and>
   head (snd (set_branch ''dev'' ex_dirty_ws)) = ''refs/heads/master'' \<and>
   fst (has_changes ex_ws) = Inr False \<and>
   fst (set_branch ''dev'' ex_ws) = Inr () \<and>
   head (snd (set_branch ''dev'' ex_ws)) = ''refs/heads/dev'' \<and>
   index (snd (set_branch ''dev'' ex_ws)) = Some ex_tree2"
proof -
  have l: "lookup_reference (repo ex_ws) (''refs/heads/'' @ ''topic'') = Inl KeyError"
    by (simp add: lookup_reference_def ex_fields ex_refs)
  have t: "truthy (index ex_dirty_ws)"
    by (simp add: truthy_def ex_fields ex_tree2_def)
  have r: "references (repo ex_dirty_ws) (''refs/heads/'' @ ''dev'') = Some (OCommit ex_commit2)"
    "references (repo ex_ws) (''refs/heads/'' @ ''dev'') = Some (OCommit ex_commit2)"
    by (simp_all add: ex_fields ex_refs)
  have 1: "set_branch ''topic'' ex_ws =
     (Inl (RepositoryError (not_found_msg (''refs/heads/'' @ ''topic''))), ex_ws)"
    using set_branch_guard [where ws = ex_ws and name = "''topic''"] l by blast
  have 2: "fst (set_branch ''dev'' ex_dirty_ws) = Inl (RepositoryError pending_msg) \<and>
      head (snd (set_branch ''dev'' ex_dirty_ws)) = head ex_dirty_ws \<and>
      index (snd (set_branch ''dev'' ex_dirty_ws)) = index ex_dirty_ws"
    using set_branch_guard [where ws = ex_dirty_ws and name = "''dev''"
        and t = "OCommit ex_commit2"] r(1) t ex_has_changes(2) by blast
  have 3: "fst (set_branch ''dev'' ex_ws) = Inr () \<and>
      head (snd (set_branch ''dev'' ex_ws)) = ''refs/heads/'' @ ''dev'' \<and>
      index (snd (set_branch ''dev'' ex_ws)) = Some (commit_tree ex_commit2)"
    using set_branch_guard [where ws = ex_ws and name = "''dev''" and c = ex_commit2]
      r(2) ex_has_changes(1) by blast
  show ?thesis using l t 1 2 3 ex_has_changes(1,2)
    by (simp add: ex_fields ex_commit2_def)
qed

text \<open>
  X2. Every run of \<^verbatim>\<open>lock\<close> that reads the clock ends in \<^verbatim>\<open>AttributeError\<close>
  before the block: on a held lock at \<^verbatim>\<open>self.path\<close> or at \<^verbatim>\<open>time.sleep\<close>, with
  the workspace unchanged; on a free lock at \<^verbatim>\<open>self.create_reference\<close>, with only
  the empty blob written.
\<close>

theorem lock_always_raises_AttributeError:
  "(locked lid ws \<longrightarrow>
      lock (start_time # t # clock) lid block ws =
        Some (Inl (AttributeError
           (if t - start_time > LOCK_WAIT_TIMEOUT (config ws) then ''path'' else ''sleep'')), ws))
   \<and> (\<not> locked lid ws \<longrightarrow>
      lock (start_time # clock) lid block ws =
        Some (Inl (AttributeError ''create_reference''),
              ws\<lparr>repo := (repo ws)\<lparr>objects := insert (ONode (Blob [])) (objects (repo ws))\<rparr>\<rparr>))"
  by (simp add: lock_held lock_free del: lock_wait.simps)

theorem lock_always_raises_AttributeError_witness:
  "locked ''job'' ex_ws \<and>
   lock [0, 1, 2] ''job'' ex_block_edits ex_ws = Some (Inl (AttributeError ''sleep''), ex_ws) \<and>
   \<not> locked ''free'' ex_ws \<and>
   fst (the (lock [0, 1, 2] ''free'' ex_block_edits ex_ws)) = Inl (AttributeError ''create_reference'')"
proof -
  have 1: "lock [0, 1, 2] ''job'' ex_block_edits ex_ws = Some (Inl (AttributeError ''sleep''), ex_ws)"
    using lock_always_raises_AttributeError [where lid = "''job''" and ws = ex_ws
        and start_time = 0 and t = 1 and clock = "[2]" and block = ex_block_edits] ex_locked(1)
    by (simp add: ex_ws_def ex_cfg_def)
  have 2: "fst (the (lock [0, 1, 2] ''free'' ex_block_edits ex_ws)) = Inl (AttributeError ''create_reference'')"
    using lock_always_raises_AttributeError [where lid = "''free''" and ws = ex_ws
        and start_time = 0 and clock = "[1, 2]" and block = ex_block_edits] ex_locked(2)
    by simp
  show ?thesis using 1 2 ex_locked by simp
qed

end
